theory Spec2Isabelle
  imports Main "HOL-Library.Sublist"
begin

section \<open>Text: characters, lowering, substring test\<close>

text \<open>
  A Python \<open>str\<close> is modelled as a \<open>string\<close> whose characters are the code points below
  256 (Latin-1); \<open>of_char\<close> is the code point. The character classes below are the ones the
  regular expressions and \<open>str\<close> methods of the source use, read off the Unicode database
  for that range.
\<close>

definition in_range :: "char \<Rightarrow> nat \<Rightarrow> nat \<Rightarrow> bool" where
  "in_range c lo hi = (lo \<le> of_char c \<and> of_char c \<le> hi)"

text \<open>\<open>[A-Z]\<close>, \<open>[a-z]\<close> and \<open>[0-9]\<close> of a pattern; \<open>\d\<close> is \<open>[0-9]\<close> below 256.\<close>

definition is_AZ :: "char \<Rightarrow> bool" where
  "is_AZ c = in_range c 65 90"

definition is_az :: "char \<Rightarrow> bool" where
  "is_az c = in_range c 97 122"

definition is_09 :: "char \<Rightarrow> bool" where
  "is_09 c = in_range c 48 57"

text \<open>
  \<open>\w\<close>: alphanumeric in the sense of \<open>str.isalnum\<close>, or the underscore. Below 256 these
  are the ASCII letters and digits, the ordinal indicators, the micro sign, the superscript
  digits, the vulgar fractions, and the accented letters.
\<close>

definition is_word :: "char \<Rightarrow> bool" where
  "is_word c = (is_AZ c \<or> is_az c \<or> is_09 c \<or> of_char c = (95::nat)
     \<or> of_char c \<in> {170, 178, 179, 181, 185, 186, 188, 189, 190 :: nat}
     \<or> in_range c 192 214 \<or> in_range c 216 246 \<or> in_range c 248 255)"

text \<open>\<open>\s\<close>: the white space of \<open>str.isspace\<close>.\<close>

definition is_space :: "char \<Rightarrow> bool" where
  "is_space c = (in_range c 9 13 \<or> in_range c 28 32 \<or> of_char c \<in> {133, 160 :: nat})"

text \<open>\<open>str.lower\<close>: the upper-case letters below 256 are \<open>A-Z\<close> and the accented capitals.\<close>

definition lower_char :: "char \<Rightarrow> char" where
  "lower_char c =
     (if is_AZ c \<or> in_range c 192 214 \<or> in_range c 216 222
      then char_of (of_char c + (32::nat)) else c)"

definition lower :: "string \<Rightarrow> string" where
  "lower s = map lower_char s"

text \<open>The operator \<open>sub in s\<close> on strings.\<close>

fun contains :: "string \<Rightarrow> string \<Rightarrow> bool" where
  "contains sub [] = (sub = [])"
| "contains sub (c # cs) = (prefix sub (c # cs) \<or> contains sub cs)"

section \<open>Brand extraction\<close>

text \<open>
  \<open>re.findall(r"\b([A-Z][A-Za-z0-9&'-]+)\b", text)\<close>. The matcher is given the character
  before the current position (none at the start of the text), which is what the
  zero-width \<open>\b\<close> looks at.
\<close>

definition is_word_opt :: "char option \<Rightarrow> bool" where
  "is_word_opt p = (case p of None \<Rightarrow> False | Some c \<Rightarrow> is_word c)"

definition boundary :: "char option \<Rightarrow> char option \<Rightarrow> bool" where
  "boundary l r = (is_word_opt l \<noteq> is_word_opt r)"

definition brand_char :: "char \<Rightarrow> bool" where
  "brand_char c = (is_AZ c \<or> is_az c \<or> is_09 c \<or> c \<in> {CHR ''&'', CHR 0x27, CHR ''-''})"

text \<open>
  \<open>[A-Za-z0-9&'-]*\b\<close> after the character \<open>prev\<close>: the greedy star takes one more
  character when it can, and gives it back when the rest of the pattern then fails.
\<close>

fun match_tail :: "char \<Rightarrow> string \<Rightarrow> string option" where
  "match_tail prev [] = (if boundary (Some prev) None then Some [] else None)"
| "match_tail prev (c # cs) =
     (case (if brand_char c then match_tail c cs else None) of
        Some m \<Rightarrow> Some (c # m)
      | None \<Rightarrow> if boundary (Some prev) (Some c) then Some [] else None)"

text \<open>The whole pattern at one position; the result is the matched text.\<close>

fun match_brand :: "char option \<Rightarrow> string \<Rightarrow> string option" where
  "match_brand prev (c # d # ds) =
     (if boundary prev (Some c) \<and> is_AZ c \<and> brand_char d
      then (case match_tail d ds of Some m \<Rightarrow> Some (c # d # m) | None \<Rightarrow> None)
      else None)"
| "match_brand prev _ = None"

text \<open>
  \<open>findall\<close>: the matches from left to right, without overlap; after a match the scan goes on
  behind it, after a failure one character further. A match \<open>m\<close> at \<open>c # cs\<close> begins with
  \<open>c\<close>, so the text behind it is \<open>cs\<close> without the other \<open>length m - 1\<close> characters.
\<close>

function findall_brand :: "char option \<Rightarrow> string \<Rightarrow> string list" where
  "findall_brand prev [] = []"
| "findall_brand prev (c # cs) =
     (case match_brand prev (c # cs) of
        Some m \<Rightarrow> m # findall_brand (Some (last m)) (drop (length m - 1) cs)
      | None \<Rightarrow> findall_brand (Some c) cs)"
  by pat_completeness auto
termination
  by (relation "measure (\<lambda>(prev, s). length s)") auto

definition stopwords :: "string list" where
  "stopwords = [''show'', ''get'', ''sales'', ''inventory'', ''stock'']"

text \<open>The loop over the candidates of \<open>_extract_brand\<close>.\<close>

fun first_candidate :: "string list \<Rightarrow> string option" where
  "first_candidate [] = None"
| "first_candidate (candidate # candidates) =
     (if lower candidate \<in> set stopwords then first_candidate candidates
      else Some candidate)"

definition extract_brand :: "string \<Rightarrow> string option" where
  "extract_brand text = first_candidate (findall_brand None text)"

section \<open>Errors\<close>

text \<open>
  Every exception of the source is a value. \<open>HTTPException\<close> carries the status code and
  the detail; \<open>TypeError\<close> and \<open>OverflowError\<close> are raised by the interpreter and the
  \<open>datetime\<close> library; \<open>HTTPError\<close> stands for whatever the HTTP layer raises;
  \<open>ValidationError\<close> is raised by the constructor of a pydantic model.
\<close>

datatype error =
    ValueError string
  | TypeError string
  | OverflowError string
  | HTTPException nat string
  | HTTPError string
  | ValidationError string

section \<open>Time window extraction\<close>

text \<open>
  Dates are proleptic Gregorian ordinals (\<open>date.toordinal\<close>): day 1 is 0001-01-01 and
  day 3652059 is 9999-12-31. The time of day of \<open>now\<close> is not modelled: subtracting whole
  days leaves it unchanged and \<open>strftime("%Y-%m-%d")\<close> does not print it.
\<close>

definition max_ordinal :: int where
  "max_ordinal = 3652059"

definition valid_ordinal :: "int \<Rightarrow> bool" where
  "valid_ordinal n = (1 \<le> n \<and> n \<le> max_ordinal)"

text \<open>\<open>timedelta(days=d)\<close>: the number of days is limited in magnitude.\<close>

definition timedelta :: "int \<Rightarrow> error + int" where
  "timedelta d =
     (if 999999999 < \<bar>d\<bar> then Inl (OverflowError ''timedelta # of days is too large'')
      else Inr d)"

text \<open>\<open>now - delta\<close>: the result must be a date of the years 1 to 9999.\<close>

definition datetime_sub :: "int \<Rightarrow> int \<Rightarrow> error + int" where
  "datetime_sub now delta =
     (if valid_ordinal (now - delta) then Inr (now - delta)
      else Inl (OverflowError ''date value out of range''))"

text \<open>The conversion of an ordinal to year, month and day, as \<open>datetime\<close> computes it.\<close>

definition days_before_month :: "int list" where
  "days_before_month = [0, 31, 59, 90, 120, 151, 181, 212, 243, 273, 304, 334]"

definition days_in_month :: "int list" where
  "days_in_month = [31, 28, 31, 30, 31, 30, 31, 31, 30, 31, 30, 31]"

text \<open>The month and the day of the month of the \<open>n\<close>-th day (from 0) of a year.\<close>

definition month_day :: "bool \<Rightarrow> int \<Rightarrow> int \<times> int" where
  "month_day leapyear n =
     (let month = (n + 50) div 32;
          preceding = days_before_month ! nat (month - 1)
                        + (if 2 < month \<and> leapyear then 1 else 0)
      in if n < preceding
         then let month = month - 1;
                  preceding = preceding - (days_in_month ! nat (month - 1)
                                + (if month = 2 \<and> leapyear then 1 else 0))
              in (month, n - preceding + 1)
         else (month, n - preceding + 1))"

definition ord2ymd :: "int \<Rightarrow> int \<times> int \<times> int" where
  "ord2ymd ordinal =
     (let n = ordinal - 1;
          n400 = n div 146097; n = n mod 146097;
          n100 = n div 36524; n = n mod 36524;
          n4 = n div 1461; n = n mod 1461;
          n1 = n div 365; n = n mod 365;
          year = n400 * 400 + 1 + n100 * 100 + n4 * 4 + n1
      in if n1 = 4 \<or> n100 = 4 then (year - 1, 12, 31)
         else (year, month_day (n1 = 3 \<and> (n4 \<noteq> 24 \<or> n100 = 3)) n))"

text \<open>
  \<open>strftime("%Y-%m-%d")\<close>, as the C library of Linux prints it: \<open>%Y\<close> is the year in
  decimal with no padding, so a year below 1000 has fewer than four digits; \<open>%m\<close> and
  \<open>%d\<close> are on two digits, padded with a zero. The years of a date are 1 to 9999.
\<close>

definition digit_char :: "int \<Rightarrow> char" where
  "digit_char d = char_of (48 + nat (d mod 10))"

definition year_text :: "int \<Rightarrow> string" where
  "year_text y =
     (if y < 10 then [digit_char y]
      else if y < 100 then [digit_char (y div 10), digit_char y]
      else if y < 1000 then [digit_char (y div 100), digit_char (y div 10), digit_char y]
      else [digit_char (y div 1000), digit_char (y div 100), digit_char (y div 10),
            digit_char y])"

definition strftime_ymd :: "int \<Rightarrow> string" where
  "strftime_ymd ordinal =
     (case ord2ymd ordinal of (y, m, d) \<Rightarrow>
        year_text y
        @ [CHR ''-'', digit_char (m div 10), digit_char m,
           CHR ''-'', digit_char (d div 10), digit_char d])"

text \<open>
  The pattern of \<open>_extract_time_window\<close>,
  \<open>(\d+|one|...|twelve)[-\s]*(day|week|month|year)s?\<close>, searched in the lowered text.
\<close>

definition number_words :: "(string \<times> int) list" where
  "number_words =
     [(''one'', 1), (''two'', 2), (''three'', 3), (''four'', 4), (''five'', 5), (''six'', 6),
      (''seven'', 7), (''eight'', 8), (''nine'', 9), (''ten'', 10), (''eleven'', 11),
      (''twelve'', 12)]"

definition units :: "string list" where
  "units = [''day'', ''week'', ''month'', ''year'']"

text \<open>The second group: the first alternative that is a prefix of the text.\<close>

definition match_unit :: "string \<Rightarrow> string option" where
  "match_unit s = find (\<lambda>u. prefix u s) units"

text \<open>\<open>[-\s]*\<close> and then the unit (the trailing \<open>s?\<close> always succeeds).\<close>

fun match_seps_unit :: "string \<Rightarrow> string option" where
  "match_seps_unit [] = match_unit []"
| "match_seps_unit (c # cs) =
     (case (if c = CHR ''-'' \<or> is_space c then match_seps_unit cs else None) of
        Some u \<Rightarrow> Some u
      | None \<Rightarrow> match_unit (c # cs))"

text \<open>
  The first group, in the order the matcher tries: the digits that follow, the longest run
  first and then each shorter one, then the number words in the order of the pattern.
\<close>

definition quantity_candidates :: "string \<Rightarrow> string list" where
  "quantity_candidates s =
     rev (tl (prefixes (takeWhile is_09 s)))
       @ filter (\<lambda>w. prefix w s) (map fst number_words)"

fun first_match :: "string \<Rightarrow> string list \<Rightarrow> (string \<times> string) option" where
  "first_match s [] = None"
| "first_match s (q # qs) =
     (case match_seps_unit (drop (length q) s) of
        Some u \<Rightarrow> Some (q, u)
      | None \<Rightarrow> first_match s qs)"

definition match_window :: "string \<Rightarrow> (string \<times> string) option" where
  "match_window s = first_match s (quantity_candidates s)"

text \<open>\<open>re.search\<close>: the match at the leftmost position that has one.\<close>

fun search_window :: "string \<Rightarrow> (string \<times> string) option" where
  "search_window [] = match_window []"
| "search_window (c # cs) =
     (case match_window (c # cs) of
        Some g \<Rightarrow> Some g
      | None \<Rightarrow> search_window cs)"

text \<open>
  \<open>str.isdigit\<close> (below 256 the digits and the superscript digits) and \<open>int\<close> of a string,
  which accepts the decimal digits only, and no more than 4300 of them (the limit of the
  interpreter on the conversion of a decimal string, leading zeros counted).
\<close>

definition isdigit :: "string \<Rightarrow> bool" where
  "isdigit s = (s \<noteq> [] \<and> list_all (\<lambda>c. is_09 c \<or> of_char c \<in> {178, 179, 185 :: nat}) s)"

definition decimal :: "string \<Rightarrow> int" where
  "decimal s = foldl (\<lambda>a c. 10 * a + (int (of_char c) - 48)) 0 s"

definition int_of_string :: "string \<Rightarrow> error + int" where
  "int_of_string s =
     (if \<not> (s \<noteq> [] \<and> list_all is_09 s)
      then Inl (ValueError ''invalid literal for int() with base 10'')
      else if 4300 < length s
      then Inl (ValueError ''Exceeds the limit (4300 digits) for integer string conversion'')
      else Inr (decimal s))"

definition startswith :: "string \<Rightarrow> string \<Rightarrow> bool" where
  "startswith s p = prefix p s"

text \<open>A dictionary with string keys keeps its insertion order.\<close>

datatype pyval = PNone | PStr string | PInt int

type_synonym dict = "(string \<times> pyval) list"

fun dict_update :: "dict \<Rightarrow> string \<Rightarrow> pyval \<Rightarrow> dict" where
  "dict_update [] k v = [(k, v)]"
| "dict_update ((k', v') # d) k v =
     (if k' = k then (k, v) # d else (k', v') # dict_update d k v)"

definition dict_get :: "dict \<Rightarrow> string \<Rightarrow> pyval" where
  "dict_get d k = (case map_of d k of None \<Rightarrow> PNone | Some v \<Rightarrow> v)"

text \<open>The second half of \<open>_extract_time_window\<close>, from the quantity and the unit on.\<close>

definition window_of :: "int \<Rightarrow> int \<Rightarrow> string \<Rightarrow> error + dict" where
  "window_of now quantity unit =
     (case (if startswith unit ''day'' then timedelta quantity
            else if startswith unit ''week'' then timedelta (7 * quantity)
            else if startswith unit ''month'' then timedelta (30 * quantity)
            else timedelta (365 * quantity)) of
        Inl e \<Rightarrow> Inl e
      | Inr delta \<Rightarrow>
          (case datetime_sub now delta of
             Inl e \<Rightarrow> Inl e
           | Inr start \<Rightarrow>
               Inr [(''start_date'', PStr (strftime_ymd start)),
                    (''end_date'', PStr (strftime_ymd now))]))"

definition extract_time_window :: "int \<Rightarrow> string \<Rightarrow> error + dict" where
  "extract_time_window now text0 =
     (let text = lower text0 in
      case search_window text of
        Some (quantity_raw, unit) \<Rightarrow>
          (case (if isdigit quantity_raw then int_of_string quantity_raw
                 else Inr (case map_of number_words quantity_raw of
                             None \<Rightarrow> 1 | Some q \<Rightarrow> q)) of
             Inl e \<Rightarrow> Inl e
           | Inr quantity \<Rightarrow> window_of now quantity unit)
      | None \<Rightarrow>
          if contains ''last year'' text then window_of now 1 ''year''
          else if contains ''last month'' text then window_of now 1 ''month''
          else if contains ''last week'' text then window_of now 1 ''week''
          else Inr [])"

section \<open>The client of the data provider\<close>

text \<open>
  The environment after \<open>load_dotenv\<close>: what \<open>os.getenv\<close> returns for the four
  variables the client reads.
\<close>

record environ =
  EWEB_BASE_URL :: "string option"
  EWEB_API_KEY :: "string option"
  EWEB_ACCOUNT_ID :: "string option"
  EWEB_DEFAULT_SUPPLIER_ID :: "string option"

record EWebCredentials =
  base_url :: string
  api_key :: string
  account_id :: "string option"
  default_supplier_id :: "string option"

record EWebClient =
  credentials :: EWebCredentials
  timeout :: int

text \<open>Truth of an optional string, and \<open>a or b\<close> on optional strings.\<close>

definition truthy :: "string option \<Rightarrow> bool" where
  "truthy x = (case x of None \<Rightarrow> False | Some s \<Rightarrow> s \<noteq> [])"

definition py_or :: "string option \<Rightarrow> string option \<Rightarrow> string option" where
  "py_or a b = (if truthy a then a else b)"

definition rstrip :: "char \<Rightarrow> string \<Rightarrow> string" where
  "rstrip c s = rev (dropWhile (\<lambda>x. x = c) (rev s))"

definition lstrip :: "char \<Rightarrow> string \<Rightarrow> string" where
  "lstrip c s = dropWhile (\<lambda>x. x = c) s"

text \<open>\<open>EWebClient()\<close>, called without arguments as \<open>handle_intent\<close> does.\<close>

definition EWebClient_init :: "environ \<Rightarrow> error + EWebClient" where
  "EWebClient_init env =
     (let base_url = py_or None (EWEB_BASE_URL env);
          api_key = py_or None (EWEB_API_KEY env);
          account_id = py_or None (EWEB_ACCOUNT_ID env);
          default_supplier_id = py_or None (EWEB_DEFAULT_SUPPLIER_ID env)
      in if \<not> truthy base_url
         then Inl (ValueError ''EWEB_BASE_URL must be provided via environment variables'')
         else if \<not> truthy api_key
         then Inl (ValueError ''EWEB_API_KEY must be provided via environment variables'')
         else Inr \<lparr>credentials =
                     \<lparr>base_url = rstrip CHR ''/'' (the base_url), api_key = the api_key,
                      account_id = account_id, default_supplier_id = default_supplier_id\<rparr>,
                   timeout = 30\<rparr>)"

text \<open>
  One HTTP request as \<open>_request\<close> sends it. The data provider is a function from the
  request to its JSON payload, or to the message of the error that the HTTP layer raises
  (a transport error, an error status in \<open>raise_for_status\<close>, a body that is not JSON).
  Of a payload only its shape matters here: an object, an array, or a scalar, which is kept
  as its JSON text. A call returns its result together with the requests it has sent.
\<close>

record http_request =
  http_method :: string
  url :: string
  headers :: "(string \<times> string) list"
  params :: dict

datatype json = JObject "(string \<times> json) list" | JArray "json list" | JScalar string

type_synonym provider = "http_request \<Rightarrow> string + json"

type_synonym 'a call = "(error + 'a) \<times> http_request list"

definition client_headers :: "EWebClient \<Rightarrow> (string \<times> string) list" where
  "client_headers self =
     [(''Authorization'', ''Bearer '' @ api_key (credentials self)),
      (''Accept'', ''application/json''),
      (''Content-Type'', ''application/json'')]
     @ (if truthy (account_id (credentials self))
        then [(''X-Account-ID'', the (account_id (credentials self)))] else [])"

definition client_request ::
  "provider \<Rightarrow> EWebClient \<Rightarrow> string \<Rightarrow> string \<Rightarrow> dict \<Rightarrow> json call" where
  "client_request provider self method path ps =
     (let request = \<lparr>http_method = method,
                     url = base_url (credentials self) @ ''/'' @ lstrip CHR ''/'' path,
                     headers = client_headers self,
                     params = filter (\<lambda>(k, v). v \<noteq> PNone) ps\<rparr>
      in (case provider request of Inl msg \<Rightarrow> Inl (HTTPError msg) | Inr d \<Rightarrow> Inr d,
          [request]))"

definition opt_val :: "string option \<Rightarrow> pyval" where
  "opt_val x = (case x of None \<Rightarrow> PNone | Some s \<Rightarrow> PStr s)"

definition get_supplier_stock ::
  "provider \<Rightarrow> EWebClient \<Rightarrow> string option \<Rightarrow> string option \<Rightarrow> json call" where
  "get_supplier_stock provider self supplier_id brand =
     (let supplier_id = py_or supplier_id (default_supplier_id (credentials self))
      in if \<not> truthy supplier_id
         then (Inl (ValueError
                 ''A supplier_id is required. Configure EWEB_DEFAULT_SUPPLIER_ID or pass a value.''),
               [])
         else client_request provider self ''GET'' ''/inventory/supplier-stock''
                [(''supplierId'', opt_val supplier_id), (''brand'', opt_val brand),
                 (''page'', PInt 1), (''pageSize'', PInt 100)])"

text \<open>
  A call \<open>f(k=v, **d)\<close> of a function with keyword-only parameters: a key of \<open>d\<close> that
  repeats a keyword written in the call, or that names no parameter, is a \<open>TypeError\<close>;
  a parameter that is not given takes its default \<open>None\<close>.
\<close>

definition bind_keywords :: "string list \<Rightarrow> dict \<Rightarrow> dict \<Rightarrow> error + dict" where
  "bind_keywords names written starred =
     (case find (\<lambda>(k, v). k \<in> fst ` set written) starred of
        Some (k, v) \<Rightarrow>
          Inl (TypeError (''got multiple values for keyword argument '' @ k))
      | None \<Rightarrow>
          (case find (\<lambda>(k, v). k \<notin> set names) (written @ starred) of
             Some (k, v) \<Rightarrow> Inl (TypeError (''got an unexpected keyword argument '' @ k))
           | None \<Rightarrow> Inr (written @ starred)))"

definition is_truthy :: "pyval \<Rightarrow> bool" where
  "is_truthy v = (case v of PNone \<Rightarrow> False | PStr s \<Rightarrow> s \<noteq> [] | PInt i \<Rightarrow> i \<noteq> 0)"

definition get_sales_history :: "provider \<Rightarrow> EWebClient \<Rightarrow> dict \<Rightarrow> json call" where
  "get_sales_history provider self kwargs =
     (let sku = dict_get kwargs ''sku''; upc = dict_get kwargs ''upc'';
          brand = dict_get kwargs ''brand''; start_date = dict_get kwargs ''start_date'';
          end_date = dict_get kwargs ''end_date''; location_id = dict_get kwargs ''location_id''
      in if \<not> (is_truthy sku \<or> is_truthy upc \<or> is_truthy brand)
         then (Inl (ValueError ''At least one of sku, upc, or brand must be provided''), [])
         else client_request provider self ''GET'' ''/sales/history''
                [(''sku'', sku), (''upc'', upc), (''brand'', brand),
                 (''startDate'', start_date), (''endDate'', end_date),
                 (''locationId'', location_id)])"

section \<open>The intent endpoint\<close>

text \<open>The three \<open>HTTPException\<close>s that \<open>handle_intent\<close> raises.\<close>

definition missing_supplier_id :: error where
  "missing_supplier_id = HTTPException 400
     ''Supplier ID is required for inventory queries. Set EWEB_DEFAULT_SUPPLIER_ID or provide one in the request.''"

definition missing_brand :: error where
  "missing_brand = HTTPException 400
     ''Unable to determine a brand or item for the sales query. Please specify a brand name.''"

definition unrecognized_intent :: error where
  "unrecognized_intent = HTTPException 400 ''Unable to interpret the requested intent.''"

record IntentRequest =
  query :: string
  supplier_id :: "string option"

record IntentResponse =
  intent :: string
  parameters :: dict
  data :: "(string \<times> json) list"

text \<open>
  \<open>IntentResponse(intent=..., parameters=..., data=...)\<close>: the model checks its fields. The
  intent is a string and the parameters are a dictionary with string keys wherever
  \<open>handle_intent\<close> builds them; \<open>data: Dict[str, Any]\<close> is what the collaborator returned,
  and a payload that is not a JSON object is refused.
\<close>

definition IntentResponse_init :: "string \<Rightarrow> dict \<Rightarrow> json \<Rightarrow> error + IntentResponse" where
  "IntentResponse_init i ps d =
     (case d of
        JObject members \<Rightarrow> Inr \<lparr>intent = i, parameters = ps, data = members\<rparr>
      | _ \<Rightarrow> Inl (ValidationError ''data: value is not a valid dict''))"

text \<open>The branch of \<open>handle_intent\<close> for inventory and stock queries.\<close>

definition supplier_stock_branch ::
  "provider \<Rightarrow> EWebClient \<Rightarrow> IntentRequest \<Rightarrow> IntentResponse call" where
  "supplier_stock_branch provider client payload =
     (let sid = py_or (supplier_id payload) (default_supplier_id (credentials client));
          brand = extract_brand (query payload)
      in if \<not> truthy sid
         then (Inl missing_supplier_id, [])
         else
           let ps = [(''supplier_id'', opt_val sid), (''brand'', opt_val brand)]
           in case get_supplier_stock provider client sid brand of
                (Inl e, sent) \<Rightarrow> (Inl e, sent)
              | (Inr d, sent) \<Rightarrow> (IntentResponse_init ''supplier_stock'' ps d, sent))"

text \<open>The branch for sales queries.\<close>

definition sales_history_names :: "string list" where
  "sales_history_names = [''sku'', ''upc'', ''brand'', ''start_date'', ''end_date'', ''location_id'']"

definition sales_history_branch ::
  "provider \<Rightarrow> int \<Rightarrow> EWebClient \<Rightarrow> IntentRequest \<Rightarrow> IntentResponse call" where
  "sales_history_branch provider now client payload =
     (case extract_time_window now (query payload) of
        Inl e \<Rightarrow> (Inl e, [])
      | Inr ps0 \<Rightarrow>
          let brand = extract_brand (query payload);
              ps = dict_update ps0 ''brand'' (opt_val brand)
          in if \<not> truthy brand
             then (Inl missing_brand, [])
             else
               (case bind_keywords sales_history_names [(''brand'', opt_val brand)] ps of
                  Inl e \<Rightarrow> (Inl e, [])
                | Inr kwargs \<Rightarrow>
                    (case get_sales_history provider client kwargs of
                       (Inl e, sent) \<Rightarrow> (Inl e, sent)
                     | (Inr d, sent) \<Rightarrow>
                         (IntentResponse_init ''sales_history'' ps d, sent))))"

text \<open>
  \<open>handle_intent\<close>. The surroundings of a request are the environment, the date of
  \<open>datetime.utcnow()\<close> and the data provider.
\<close>

definition handle_intent ::
  "environ \<Rightarrow> int \<Rightarrow> provider \<Rightarrow> IntentRequest \<Rightarrow> IntentResponse call" where
  "handle_intent env now provider payload =
     (let query_lower = lower (query payload) in
      case EWebClient_init env of
        Inl e \<Rightarrow> (Inl e, [])
      | Inr client \<Rightarrow>
          if list_ex (\<lambda>word. contains word query_lower) [''inventory'', ''stock'']
          then supplier_stock_branch provider client payload
          else if contains ''sale'' query_lower
          then sales_history_branch provider now client payload
          else (Inl unrecognized_intent, []))"

section \<open>The classifier of the specification\<close>

datatype IntentKind = SupplierStock | SalesHistory

text \<open>
  The classifier as the specification words it: substring tests on the lower-cased text in a
  fixed order of priority. \<open>handle_intent\<close> has no such function; it tests the same
  conditions inline.
\<close>

definition classify :: "string \<Rightarrow> IntentKind option" where
  "classify text =
     (if sublist ''inventory'' (lower text) \<or> sublist ''stock'' (lower text)
      then Some SupplierStock
      else if sublist ''sale'' (lower text) then Some SalesHistory
      else None)"

section \<open>The brand token of the specification\<close>

text \<open>The character at a position of a text, none beyond its end.\<close>

definition char_at :: "string \<Rightarrow> nat \<Rightarrow> char option" where
  "char_at s i = (if i < length s then Some (s ! i) else None)"

text \<open>
  The pattern of a brand as the specification words it: a capital letter, optionally
  followed by letters, digits, ampersands, apostrophes or hyphens.
\<close>

definition capitalized_word :: "string \<Rightarrow> bool" where
  "capitalized_word t =
     (case t of c # cs \<Rightarrow> is_AZ c \<and> list_all brand_char cs | _ \<Rightarrow> False)"

text \<open>
  The pattern as the expression of \<open>_extract_brand\<close> has it: a capital letter followed by
  one or more letters, digits, ampersands, apostrophes or hyphens.
\<close>

definition brand_token :: "string \<Rightarrow> bool" where
  "brand_token t =
     (case t of c # d # ds \<Rightarrow> is_AZ c \<and> list_all brand_char (d # ds) | _ \<Rightarrow> False)"

text \<open>
  The token \<open>t\<close> stands at position \<open>k\<close> of the text \<open>s\<close>, between two word boundaries;
  \<open>prev\<close> is the character before the text, if any.
\<close>

definition token_at :: "char option \<Rightarrow> string \<Rightarrow> nat \<Rightarrow> string \<Rightarrow> bool" where
  "token_at prev s k t =
     (take (length t) (drop k s) = t \<and> brand_token t
      \<and> boundary (if k = 0 then prev else char_at s (k - 1)) (char_at s k)
      \<and> boundary (char_at s (k + length t - 1)) (char_at s (k + length t)))"

text \<open>A token that qualifies as a brand: its lower-cased form is no stopword.\<close>

definition qualifying :: "char option \<Rightarrow> string \<Rightarrow> nat \<Rightarrow> string \<Rightarrow> bool" where
  "qualifying prev s k t = (token_at prev s k t \<and> lower t \<notin> set stopwords)"

text \<open>
  \<open>r\<close> is the leftmost qualifying token of the text, the longest at its position, or none when
  no token qualifies.
\<close>

definition first_qualifying :: "char option \<Rightarrow> string \<Rightarrow> string option \<Rightarrow> bool" where
  "first_qualifying prev s r =
     (case r of
        None \<Rightarrow> (\<forall>k t. \<not> qualifying prev s k t)
      | Some b \<Rightarrow>
          (\<exists>k. qualifying prev s k b
             \<and> (\<forall>k' t'. qualifying prev s k' t' \<longrightarrow>
                   k \<le> k' \<and> (k' = k \<longrightarrow> length t' \<le> length b))))"

section \<open>The time window of the specification\<close>

text \<open>The separators \<open>[-\s]\<close> of the pattern.\<close>

definition is_sep :: "char \<Rightarrow> bool" where
  "is_sep c = (c = CHR ''-'' \<or> is_space c)"

text \<open>A quantity: a sequence of digits, or one of the number words "one" to "twelve".\<close>

definition quantity_shaped :: "string \<Rightarrow> bool" where
  "quantity_shaped q = (q \<noteq> [] \<and> list_all is_09 q \<or> q \<in> set (map fst number_words))"

text \<open>
  The pattern occurs at position \<open>k\<close> of the text, with quantity \<open>q\<close> and unit \<open>u\<close>: a
  quantity, any number of separators, a unit.
\<close>

definition pattern_at :: "string \<Rightarrow> nat \<Rightarrow> string \<Rightarrow> string \<Rightarrow> bool" where
  "pattern_at s k q u =
     (k \<le> length s \<and>
      (\<exists>seps post. drop k s = q @ seps @ u @ post
         \<and> quantity_shaped q \<and> list_all is_sep seps \<and> u \<in> set units))"

text \<open>The leftmost occurrence of the pattern: no occurrence begins before \<open>k\<close>.\<close>

definition leftmost_pattern :: "string \<Rightarrow> nat \<Rightarrow> string \<Rightarrow> string \<Rightarrow> bool" where
  "leftmost_pattern s k q u =
     (pattern_at s k q u \<and> (\<forall>k' q' u'. pattern_at s k' q' u' \<longrightarrow> k \<le> k'))"

text \<open>
  The integer of a quantity: the digits read in base ten, or the number word looked up,
  with 1 for a word that is not in the table.
\<close>

definition quantity_value :: "string \<Rightarrow> int" where
  "quantity_value q =
     (if list_all is_09 q then decimal q
      else case map_of number_words q of Some v \<Rightarrow> v | None \<Rightarrow> 1)"

text \<open>The days of a quantity of units: a week is 7 days, a month 30, a year 365.\<close>

definition delta_days :: "int \<Rightarrow> string \<Rightarrow> int" where
  "delta_days quantity u =
     (if u = ''day'' then quantity
      else if u = ''week'' then quantity * 7
      else if u = ''month'' then quantity * 30
      else quantity * 365)"

text \<open>The window of \<open>days\<close> days that ends at \<open>now\<close>.\<close>

definition window :: "int \<Rightarrow> int \<Rightarrow> dict" where
  "window now days =
     [(''start_date'', PStr (strftime_ymd (now - days))),
      (''end_date'', PStr (strftime_ymd now))]"

text \<open>
  The window can be computed: the number of days is within the limit of \<open>timedelta\<close> and
  the start is a date of the years 1 to 9999.
\<close>

definition representable :: "int \<Rightarrow> int \<Rightarrow> bool" where
  "representable now days = (days \<le> 999999999 \<and> valid_ordinal (now - days))"

text \<open>
  A digit sequence that \<open>int\<close> refuses: more than 4300 digits.
\<close>

definition too_long :: "string \<Rightarrow> bool" where
  "too_long q = (list_all is_09 q \<and> 4300 < length q)"





text \<open>The message of \<open>int\<close> for a digit sequence that is too long.\<close>

definition int_limit_error :: error where
  "int_limit_error = ValueError ''Exceeds the limit (4300 digits) for integer string conversion''"

section \<open>Example surroundings\<close>

definition example_env :: environ where
  "example_env =
     \<lparr>EWEB_BASE_URL = Some ''https://eweb.example/api/'', EWEB_API_KEY = Some ''key'',
      EWEB_ACCOUNT_ID = None, EWEB_DEFAULT_SUPPLIER_ID = Some ''S1''\<rparr>"

definition example_provider :: provider where
  "example_provider request = Inr (JObject [(''items'', JArray [])])"

definition example_client :: EWebClient where
  "example_client =
     \<lparr>credentials =
        \<lparr>base_url = ''https://eweb.example/api'', api_key = ''key'', account_id = None,
         default_supplier_id = Some ''S1''\<rparr>,
      timeout = 30\<rparr>"

definition unconfigured_env :: environ where
  "unconfigured_env =
     \<lparr>EWEB_BASE_URL = None, EWEB_API_KEY = None, EWEB_ACCOUNT_ID = None,
      EWEB_DEFAULT_SUPPLIER_ID = None\<rparr>"

text \<open>3 November 2026.\<close>

definition example_now :: int where
  "example_now = 739923"

section \<open>Properties\<close>

subsection \<open>Substring test\<close>

lemma contains_sublist: "contains sub s = sublist sub s"
  by (induction s) (auto simp: sublist_Cons_right)

subsection \<open>Classification\<close>

lemma handle_intent_routes:
  assumes "EWebClient_init env = Inr client"
  shows "handle_intent env now provider payload =
           (case classify (query payload) of
              Some SupplierStock \<Rightarrow> supplier_stock_branch provider client payload
            | Some SalesHistory \<Rightarrow> sales_history_branch provider now client payload
            | None \<Rightarrow> (Inl unrecognized_intent, []))"
  using assms by (simp add: handle_intent_def classify_def contains_sublist)

text \<open>
  C2. Once the client exists, \<open>handle_intent\<close> takes the branch that the classifier of the
  specification names: the stock branch when the lower-cased text contains "inventory" or
  "stock", otherwise the sales branch when it contains "sale", otherwise it fails with the
  unrecognised-intent error; a text with both "stock" and "sale" takes the stock branch.
\<close>

theorem handle_intent_classification:
  assumes "EWebClient_init env = Inr client"
  shows "handle_intent env now provider payload =
           (case classify (query payload) of
              Some SupplierStock \<Rightarrow> supplier_stock_branch provider client payload
            | Some SalesHistory \<Rightarrow> sales_history_branch provider now client payload
            | None \<Rightarrow> (Inl unrecognized_intent, []))
         \<and> (sublist ''stock'' (lower (query payload))
              \<and> sublist ''sale'' (lower (query payload))
            \<longrightarrow> classify (query payload) = Some SupplierStock)"
  using assms by (simp add: handle_intent_def classify_def contains_sublist)

lemma example_client_init: "EWebClient_init example_env = Inr example_client"
  by code_simp

theorem handle_intent_classification_witness:
  "EWebClient_init example_env = Inr example_client
   \<and> handle_intent example_env example_now example_provider
         \<lparr>query = ''Any Stock for sale?'', supplier_id = None\<rparr>
       = supplier_stock_branch example_provider example_client
           \<lparr>query = ''Any Stock for sale?'', supplier_id = None\<rparr>
   \<and> classify ''Any Stock for sale?'' = Some SupplierStock"
proof -
  have stock: "sublist ''stock'' (lower ''Any Stock for sale?'')"
    unfolding contains_sublist [symmetric] by code_simp
  have sale: "sublist ''sale'' (lower ''Any Stock for sale?'')"
    unfolding contains_sublist [symmetric] by code_simp
  from handle_intent_classification [OF example_client_init, of example_now example_provider
      "\<lparr>query = ''Any Stock for sale?'', supplier_id = None\<rparr>"]
  show ?thesis using stock sale example_client_init by simp
qed

subsection \<open>Client construction comes first\<close>

text \<open>
  C10. The client is built before the query is looked at: when the base URL or the API key
  is missing from the environment (absent or empty), every query, whatever its text and its
  supplier override, fails with the client's \<open>ValueError\<close> and sends no request, so neither
  the unrecognised-intent error nor a missing-entity error can be the outcome.
\<close>

theorem handle_intent_configuration_error:
  assumes "\<not> truthy (EWEB_BASE_URL env) \<or> \<not> truthy (EWEB_API_KEY env)"
  shows "handle_intent env now provider payload =
           (Inl (ValueError
              (if \<not> truthy (EWEB_BASE_URL env)
               then ''EWEB_BASE_URL must be provided via environment variables''
               else ''EWEB_API_KEY must be provided via environment variables'')), [])"
  using assms by (auto simp: handle_intent_def EWebClient_init_def py_or_def truthy_def)

theorem handle_intent_configuration_error_witness:
  "\<not> truthy (EWEB_API_KEY (example_env\<lparr>EWEB_API_KEY := None\<rparr>))
   \<and> handle_intent (example_env\<lparr>EWEB_API_KEY := None\<rparr>) example_now example_provider
         \<lparr>query = ''hello world'', supplier_id = None\<rparr>
       = (Inl (ValueError ''EWEB_API_KEY must be provided via environment variables''), [])"
proof -
  have key: "\<not> truthy (EWEB_API_KEY (example_env\<lparr>EWEB_API_KEY := None\<rparr>))"
    by (simp add: truthy_def)
  have url: "truthy (EWEB_BASE_URL (example_env\<lparr>EWEB_API_KEY := None\<rparr>))"
    by (simp add: truthy_def example_env_def)
  from handle_intent_configuration_error [OF disjI2, OF key, of example_now example_provider
      "\<lparr>query = ''hello world'', supplier_id = None\<rparr>"]
  show ?thesis using key url by simp
qed

subsection \<open>Brand extraction and the stopwords\<close>

lemma first_candidate_Some:
  "first_candidate cs = Some b \<Longrightarrow> b \<in> set cs \<and> lower b \<notin> set stopwords"
  by (induction cs) (auto split: if_splits)

text \<open>
  C8. Whenever \<open>extract_brand\<close> returns a value, the lower-cased value is none of the
  stopwords "show", "get", "sales", "inventory", "stock".
\<close>

theorem extract_brand_not_stopword:
  assumes "extract_brand text = Some b"
  shows "lower b \<notin> {''show'', ''get'', ''sales'', ''inventory'', ''stock''}"
  using first_candidate_Some [of "findall_brand None text" b] assms
  by (simp add: extract_brand_def stopwords_def)

lemma extract_brand_example:
  "extract_brand ''Show TechCo sales last 2 weeks'' = Some ''TechCo''"
  by code_simp

theorem extract_brand_not_stopword_witness:
  "extract_brand ''Show TechCo sales last 2 weeks'' = Some ''TechCo''
   \<and> lower ''TechCo'' \<notin> {''show'', ''get'', ''sales'', ''inventory'', ''stock''}"
  using extract_brand_not_stopword [OF extract_brand_example] extract_brand_example
  by (rule_tac conjI)

subsection \<open>The sales branch\<close>

text \<open>
  The call \<open>client.get_sales_history(brand=brand, **params)\<close> is made after
  \<open>params.update({"brand": brand})\<close>, so \<open>brand\<close> is given twice and the call is a
  \<open>TypeError\<close> before the client's method starts.
\<close>

lemma dict_update_find:
  "find (\<lambda>(k', v'). k' = k) (dict_update d k v) = Some (k, v)"
  by (induction d k v rule: dict_update.induct) auto

lemma sales_history_branch_error:
  "\<exists>e. sales_history_branch provider now client payload = (Inl e, [])"
  by (auto simp: sales_history_branch_def bind_keywords_def dict_update_find Let_def
      split: sum.splits option.splits prod.splits)

text \<open>
  C1. At the query "Show TechCo sales last 2 weeks", which is a sales query with the brand
  "TechCo", \<open>handle_intent\<close> ends in the \<open>TypeError\<close> of the doubled keyword: the
  sales-history collaborator is not called and no \<open>IntentResponse\<close> is returned.
\<close>

theorem handle_intent_sales_type_error:
  "handle_intent example_env example_now example_provider
     \<lparr>query = ''Show TechCo sales last 2 weeks'', supplier_id = None\<rparr>
   = (Inl (TypeError ''got multiple values for keyword argument brand''), [])"
  by code_simp

subsection \<open>The stock branch\<close>

lemma client_default_supplier:
  "EWebClient_init env = Inr client \<Longrightarrow>
     default_supplier_id (credentials client) = EWEB_DEFAULT_SUPPLIER_ID env"
  by (auto simp: EWebClient_init_def py_or_def truthy_def Let_def split: if_splits)

lemma supplier_stock_branch_present:
  assumes "py_or (supplier_id payload) (default_supplier_id (credentials client)) = sid"
      and "truthy sid"
  shows "supplier_stock_branch provider client payload =
     (let request =
             \<lparr>http_method = ''GET'',
              url = base_url (credentials client) @ ''/inventory/supplier-stock'',
              headers = client_headers client,
              params = filter (\<lambda>(k, v). v \<noteq> PNone)
                 [(''supplierId'', opt_val sid),
                  (''brand'', opt_val (extract_brand (query payload))),
                  (''page'', PInt 1), (''pageSize'', PInt 100)]\<rparr>
      in (case provider request of
              Inl msg \<Rightarrow> Inl (HTTPError msg)
            | Inr (JObject members) \<Rightarrow>
                Inr \<lparr>intent = ''supplier_stock'',
                     parameters = [(''supplier_id'', opt_val sid),
                                   (''brand'', opt_val (extract_brand (query payload)))],
                     data = members\<rparr>
            | Inr _ \<Rightarrow> Inl (ValidationError ''data: value is not a valid dict''),
            [request]))"
proof -
  have "py_or sid (default_supplier_id (credentials client)) = sid"
    using assms(2) by (simp add: py_or_def)
  then show ?thesis
    using assms
    by (simp add: supplier_stock_branch_def get_supplier_stock_def client_request_def
        IntentResponse_init_def lstrip_def Let_def split: sum.splits json.splits)
qed

lemma supplier_stock_branch_absent:
  assumes "\<not> truthy (py_or (supplier_id payload) (default_supplier_id (credentials client)))"
  shows "supplier_stock_branch provider client payload = (Inl missing_supplier_id, [])"
  using assms by (simp add: supplier_stock_branch_def Let_def)

text \<open>
  C3. For a query classified as SupplierStock, the supplier identifier is the override of the
  request when there is one and otherwise the configured default (the source's \<open>or\<close>: an
  empty string counts as none). When this gives an identifier, the parameters are
  \<open>supplier_id\<close> and \<open>brand\<close> and exactly one request is sent, to the stock endpoint, with
  them. An error of the HTTP layer is passed on; a payload that is a JSON object is returned
  under the intent \<open>supplier_stock\<close> with the parameters; any other payload is refused by
  the response model. "Show ACME stock" with the default supplier "S1" is the witness.
\<close>

theorem supplier_stock_dispatch:
  assumes client: "EWebClient_init env = Inr client"
      and stock: "classify (query payload) = Some SupplierStock"
      and sid: "sid = (if truthy (supplier_id payload) then supplier_id payload
                       else EWEB_DEFAULT_SUPPLIER_ID env)"
      and present: "truthy sid"
      and request: "request =
             \<lparr>http_method = ''GET'',
              url = base_url (credentials client) @ ''/inventory/supplier-stock'',
              headers = client_headers client,
              params = filter (\<lambda>(k, v). v \<noteq> PNone)
                 [(''supplierId'', opt_val sid),
                  (''brand'', opt_val (extract_brand (query payload))),
                  (''page'', PInt 1), (''pageSize'', PInt 100)]\<rparr>"
  shows "handle_intent env now provider payload =
           (case provider request of
              Inl msg \<Rightarrow> Inl (HTTPError msg)
            | Inr (JObject members) \<Rightarrow>
                Inr \<lparr>intent = ''supplier_stock'',
                     parameters = [(''supplier_id'', opt_val sid),
                                   (''brand'', opt_val (extract_brand (query payload)))],
                     data = members\<rparr>
            | Inr _ \<Rightarrow> Inl (ValidationError ''data: value is not a valid dict''),
            [request])"
proof -
  have "handle_intent env now provider payload = supplier_stock_branch provider client payload"
    using handle_intent_routes [OF client, of now provider payload] stock by simp
  moreover have "py_or (supplier_id payload) (default_supplier_id (credentials client)) = sid"
    using sid client_default_supplier [OF client] by (simp add: py_or_def)
  ultimately show ?thesis
    using supplier_stock_branch_present [of payload client sid provider] present request
    by (simp add: Let_def)
qed

lemma classify_show_acme_stock: "classify ''Show ACME stock'' = Some SupplierStock"
  unfolding classify_def contains_sublist [symmetric] by code_simp

lemma extract_brand_show_acme_stock: "extract_brand ''Show ACME stock'' = Some ''ACME''"
  by code_simp

theorem supplier_stock_dispatch_witness:
  "EWebClient_init example_env = Inr example_client
   \<and> classify ''Show ACME stock'' = Some SupplierStock
   \<and> truthy (Some ''S1'')
   \<and> handle_intent example_env example_now example_provider
        \<lparr>query = ''Show ACME stock'', supplier_id = None\<rparr>
      = (Inr \<lparr>intent = ''supplier_stock'',
               parameters = [(''supplier_id'', PStr ''S1''), (''brand'', PStr ''ACME'')],
               data = [(''items'', JArray [])]\<rparr>,
         [\<lparr>http_method = ''GET'',
           url = ''https://eweb.example/api/inventory/supplier-stock'',
           headers = [(''Authorization'', ''Bearer key''), (''Accept'', ''application/json''),
                      (''Content-Type'', ''application/json'')],
           params = [(''supplierId'', PStr ''S1''), (''brand'', PStr ''ACME''),
                     (''page'', PInt 1), (''pageSize'', PInt 100)]\<rparr>])"
proof -
  have present: "truthy (Some ''S1'')"
    by (simp add: truthy_def)
  have sid: "Some ''S1'' =
      (if truthy (supplier_id \<lparr>query = ''Show ACME stock'', supplier_id = None\<rparr>)
       then supplier_id \<lparr>query = ''Show ACME stock'', supplier_id = None\<rparr>
       else EWEB_DEFAULT_SUPPLIER_ID example_env)"
    by (simp add: truthy_def example_env_def)
  have stock: "classify (query \<lparr>query = ''Show ACME stock'', supplier_id = None\<rparr>)
      = Some SupplierStock"
    using classify_show_acme_stock by simp
  from supplier_stock_dispatch [OF example_client_init stock sid present refl,
      of example_now example_provider]
  show ?thesis
    using example_client_init classify_show_acme_stock present
    by (simp add: extract_brand_show_acme_stock opt_val_def example_provider_def
        example_client_def client_headers_def truthy_def)
qed

subsection \<open>Missing entities\<close>

lemma match_brand_length: "match_brand prev s = Some m \<Longrightarrow> 2 \<le> length m"
  by (cases "(prev, s)" rule: match_brand.cases) (auto split: if_splits option.splits)

lemma findall_brand_length: "b \<in> set (findall_brand prev s) \<Longrightarrow> 2 \<le> length b"
  by (induction prev s rule: findall_brand.induct)
     (auto split: option.splits dest: match_brand_length)

lemma extract_brand_truthy: "truthy (extract_brand text) \<longleftrightarrow> extract_brand text \<noteq> None"
proof (cases "extract_brand text")
  case None
  then show ?thesis by (simp add: truthy_def)
next
  case (Some b)
  then have "b \<in> set (findall_brand None text)"
    using first_candidate_Some by (simp add: extract_brand_def)
  then have "2 \<le> length b" by (rule findall_brand_length)
  then show ?thesis using Some by (auto simp: truthy_def)
qed

lemma extract_time_window_error:
  "extract_time_window now text = Inl e \<Longrightarrow> (\<exists>m. e = OverflowError m) \<or> (\<exists>m. e = ValueError m)"
  by (auto simp: extract_time_window_def window_of_def timedelta_def datetime_sub_def
      int_of_string_def Let_def split: option.splits prod.splits if_splits sum.splits)

lemma supplier_stock_branch_cases:
  "supplier_stock_branch provider client payload = (r, sent) \<Longrightarrow>
     (r = Inl missing_supplier_id \<longleftrightarrow>
        \<not> truthy (py_or (supplier_id payload) (default_supplier_id (credentials client))))
     \<and> r \<noteq> Inl missing_brand
     \<and> (r = Inl missing_supplier_id \<longrightarrow> sent = [])"
  by (auto simp: supplier_stock_branch_def get_supplier_stock_def client_request_def Let_def
      IntentResponse_init_def missing_supplier_id_def missing_brand_def
      split: if_splits sum.splits prod.splits json.splits)

lemma sales_history_branch_cases:
  "sales_history_branch provider now client payload = (r, sent) \<Longrightarrow>
     (r = Inl missing_brand \<longleftrightarrow>
        (\<exists>w. extract_time_window now (query payload) = Inr w)
        \<and> extract_brand (query payload) = None)
     \<and> r \<noteq> Inl missing_supplier_id \<and> sent = []"
  using extract_time_window_error [of now "query payload"]
    extract_brand_truthy [of "query payload"]
  by (auto simp: sales_history_branch_def bind_keywords_def dict_update_find Let_def
      missing_supplier_id_def missing_brand_def split: sum.splits option.splits if_splits)

lemma py_or_truthy: "truthy (py_or a b) \<longleftrightarrow> truthy a \<or> truthy b"
  by (simp add: py_or_def)

text \<open>
  C4 (as amended). Once the client exists, \<open>handle_intent\<close> fails with the missing
  supplier identifier error exactly when the query is classified SupplierStock and neither
  the override nor the configured default gives an identifier. It fails with the missing
  brand error only when the query is classified SalesHistory and no brand is extracted,
  and it does so for every such query whose time window extraction returns. Whenever one
  of the two errors is the outcome, no request has been sent.
\<close>

theorem missing_entity_errors:
  assumes client: "EWebClient_init env = Inr client"
      and result: "handle_intent env now provider payload = (r, sent)"
  shows "(r = Inl missing_supplier_id \<longleftrightarrow>
            classify (query payload) = Some SupplierStock
            \<and> \<not> truthy (supplier_id payload) \<and> \<not> truthy (EWEB_DEFAULT_SUPPLIER_ID env))
       \<and> (r = Inl missing_brand \<longrightarrow>
            classify (query payload) = Some SalesHistory \<and> extract_brand (query payload) = None)
       \<and> (classify (query payload) = Some SalesHistory \<and> extract_brand (query payload) = None
            \<and> (\<exists>w. extract_time_window now (query payload) = Inr w)
          \<longrightarrow> r = Inl missing_brand)
       \<and> (r = Inl missing_supplier_id \<or> r = Inl missing_brand \<longrightarrow> sent = [])"
proof (cases "classify (query payload)")
  case None
  then have "r = Inl unrecognized_intent"
    using handle_intent_routes [OF client, of now provider payload] result by simp
  then show ?thesis
    using None by (simp add: unrecognized_intent_def missing_supplier_id_def missing_brand_def)
next
  case (Some kind)
  show ?thesis
  proof (cases kind)
    case SupplierStock
    then have "supplier_stock_branch provider client payload = (r, sent)"
      using handle_intent_routes [OF client, of now provider payload] result Some by simp
    from supplier_stock_branch_cases [OF this] show ?thesis
      using Some SupplierStock client_default_supplier [OF client] by (simp add: py_or_truthy)
  next
    case SalesHistory
    then have "sales_history_branch provider now client payload = (r, sent)"
      using handle_intent_routes [OF client, of now provider payload] result Some by simp
    from sales_history_branch_cases [OF this] show ?thesis
      using Some SalesHistory by simp
  qed
qed

lemma classify_show_stock: "classify ''show stock'' = Some SupplierStock"
  unfolding classify_def contains_sublist [symmetric] by code_simp

text \<open>
  C4 as stated fails without the proviso on the client: with nothing configured, the stock
  query "show stock" has no supplier identifier from either source, and the outcome is the
  client's \<open>ValueError\<close>, not the missing supplier identifier error.
\<close>

theorem missing_supplier_id_counterexample:
  "classify ''show stock'' = Some SupplierStock
   \<and> \<not> truthy (supplier_id \<lparr>query = ''show stock'', supplier_id = None\<rparr>)
   \<and> \<not> truthy (EWEB_DEFAULT_SUPPLIER_ID unconfigured_env)
   \<and> handle_intent unconfigured_env example_now example_provider
        \<lparr>query = ''show stock'', supplier_id = None\<rparr>
      = (Inl (ValueError ''EWEB_BASE_URL must be provided via environment variables''), [])
   \<and> Inl (ValueError ''EWEB_BASE_URL must be provided via environment variables'')
      \<noteq> (Inl missing_supplier_id :: error + IntentResponse)"
proof -
  have "handle_intent unconfigured_env example_now example_provider
        \<lparr>query = ''show stock'', supplier_id = None\<rparr>
      = (Inl (ValueError ''EWEB_BASE_URL must be provided via environment variables''), [])"
    by code_simp
  then show ?thesis
    using classify_show_stock
    by (simp add: truthy_def unconfigured_env_def missing_supplier_id_def)
qed

lemma classify_show_sales: "classify ''show sales last 2 weeks'' = Some SalesHistory"
  unfolding classify_def contains_sublist [symmetric] by code_simp

lemma extract_brand_show_sales: "extract_brand ''show sales last 2 weeks'' = None"
  by code_simp

lemma extract_time_window_show_sales:
  "extract_time_window example_now ''show sales last 2 weeks''
     = Inr [(''start_date'', PStr ''2026-10-20''), (''end_date'', PStr ''2026-11-03'')]"
  by code_simp

theorem missing_entity_errors_witness:
  "EWebClient_init example_env = Inr example_client
   \<and> classify ''show sales last 2 weeks'' = Some SalesHistory
   \<and> extract_brand ''show sales last 2 weeks'' = None
   \<and> extract_time_window example_now ''show sales last 2 weeks''
       = Inr [(''start_date'', PStr ''2026-10-20''), (''end_date'', PStr ''2026-11-03'')]
   \<and> handle_intent example_env example_now example_provider
        \<lparr>query = ''show sales last 2 weeks'', supplier_id = None\<rparr>
      = (Inl missing_brand, [])"
proof -
  obtain r sent where result:
    "handle_intent example_env example_now example_provider
        \<lparr>query = ''show sales last 2 weeks'', supplier_id = None\<rparr> = (r, sent)"
    by (cases "handle_intent example_env example_now example_provider
        \<lparr>query = ''show sales last 2 weeks'', supplier_id = None\<rparr>")
  from missing_entity_errors [OF example_client_init result]
  have "r = Inl missing_brand \<and> sent = []"
    using classify_show_sales extract_brand_show_sales extract_time_window_show_sales
    by simp
  then show ?thesis
    using result example_client_init classify_show_sales extract_brand_show_sales
      extract_time_window_show_sales
    by simp
qed

subsection \<open>Calendar dates\<close>







subsection \<open>The pattern of the time window\<close>

lemma match_unit_Some: "match_unit s = Some u \<Longrightarrow> u \<in> set units \<and> prefix u s"
  by (auto simp: match_unit_def find_Some_iff)

lemma match_unit_None: "match_unit s = None \<Longrightarrow> u \<in> set units \<Longrightarrow> \<not> prefix u s"
  by (auto simp: match_unit_def find_None_iff)

lemma match_seps_unit_Some:
  "match_seps_unit s = Some u \<Longrightarrow>
     \<exists>seps post. s = seps @ u @ post \<and> list_all is_sep seps \<and> u \<in> set units"
proof (induction s)
  case Nil
  then show ?case
    using match_unit_Some [of "[]" u] by (auto simp: prefix_def)
next
  case (Cons c cs)
  show ?case
  proof (cases "(c = CHR ''-'' \<or> is_space c) \<and> match_seps_unit cs \<noteq> None")
    case True
    then have "match_seps_unit cs = Some u"
      using Cons.prems by (auto split: option.splits)
    then obtain seps post where "cs = seps @ u @ post" "list_all is_sep seps" "u \<in> set units"
      using Cons.IH by blast
    then have "c # cs = (c # seps) @ u @ post \<and> list_all is_sep (c # seps) \<and> u \<in> set units"
      using True by (simp add: is_sep_def)
    then show ?thesis by blast
  next
    case False
    then have "match_unit (c # cs) = Some u"
      using Cons.prems by (auto split: option.splits if_splits)
    then have "u \<in> set units" "prefix u (c # cs)"
      using match_unit_Some by blast+
    then obtain post where "c # cs = u @ post"
      by (auto simp: prefix_def)
    then have "c # cs = [] @ u @ post \<and> list_all is_sep [] \<and> u \<in> set units"
      using \<open>u \<in> set units\<close> by simp
    then show ?thesis by blast
  qed
qed

lemma match_seps_unit_complete:
  "list_all is_sep seps \<Longrightarrow> u \<in> set units \<Longrightarrow> match_seps_unit (seps @ u @ post) \<noteq> None"
proof (induction seps)
  case Nil
  have "match_unit (u @ post) \<noteq> None"
    using match_unit_None [of "u @ post" u] Nil(2) by auto
  then show ?case
    by (cases "u @ post") (auto split: option.splits)
next
  case (Cons c seps)
  then show ?case by (auto simp: is_sep_def split: option.splits)
qed

lemma first_match_Some:
  "first_match s qs = Some (q, u) \<Longrightarrow>
     q \<in> set qs \<and> match_seps_unit (drop (length q) s) = Some u"
  by (induction qs) (auto split: option.splits)

lemma first_match_complete:
  "q \<in> set qs \<Longrightarrow> match_seps_unit (drop (length q) s) \<noteq> None \<Longrightarrow> first_match s qs \<noteq> None"
  by (induction qs) (auto split: option.splits)

lemma in_set_tl_prefixes: "q \<in> set (tl (prefixes xs)) \<longleftrightarrow> q \<noteq> [] \<and> prefix q xs"
  by (cases xs) (auto simp: prefix_Cons)

lemma prefix_list_all: "prefix q xs \<Longrightarrow> list_all P xs \<Longrightarrow> list_all P q"
  by (auto simp: prefix_def)

lemma list_all_takeWhile: "list_all P (takeWhile P xs)"
  by (induction xs) auto

lemma quantity_candidates_shaped:
  assumes "q \<in> set (quantity_candidates s)"
  shows "prefix q s \<and> quantity_shaped q"
proof -
  from assms consider (digits) "q \<noteq> []" "prefix q (takeWhile is_09 s)"
    | (word) "q \<in> set (map fst number_words)" "prefix q s"
    by (auto simp: quantity_candidates_def in_set_tl_prefixes)
  then show ?thesis
  proof cases
    case digits
    have "prefix q s"
      using digits(2) takeWhile_is_prefix [of is_09 s] by (rule prefix_order.order_trans)
    moreover have "list_all is_09 q"
      using digits(2) list_all_takeWhile by (rule prefix_list_all)
    ultimately show ?thesis using digits(1) by (simp add: quantity_shaped_def)
  next
    case word
    then show ?thesis by (simp add: quantity_shaped_def)
  qed
qed







lemma match_window_Some:
  assumes "match_window s = Some (q, u)"
  shows "pattern_at s 0 q u"
proof -
  from assms have "q \<in> set (quantity_candidates s)"
    and m: "match_seps_unit (drop (length q) s) = Some u"
    using first_match_Some by (auto simp: match_window_def)
  then have q: "prefix q s" "quantity_shaped q"
    using quantity_candidates_shaped by blast+
  then obtain rest where rest: "s = q @ rest" by (auto simp: prefix_def)
  then have "match_seps_unit rest = Some u" using m by simp
  then obtain seps post where "rest = seps @ u @ post" "list_all is_sep seps" "u \<in> set units"
    using match_seps_unit_Some by blast
  then show ?thesis
    using rest q(2) by (auto simp: pattern_at_def)
qed

lemma quantity_shaped_candidate:
  assumes "quantity_shaped q" "list_all is_sep seps" "u \<in> set units"
  shows "q \<in> set (quantity_candidates (q @ seps @ u @ post))"
proof (cases "q \<in> set (map fst number_words)")
  case True
  then show ?thesis by (simp add: quantity_candidates_def)
next
  case False
  then have q: "q \<noteq> []" "list_all is_09 q"
    using assms(1) by (auto simp: quantity_shaped_def)
  then have "takeWhile is_09 (q @ seps @ u @ post) = q @ takeWhile is_09 (seps @ u @ post)"
    by (simp add: takeWhile_append2 list_all_iff)
  then show ?thesis
    using q(1) by (simp add: quantity_candidates_def in_set_tl_prefixes)
qed

lemma match_window_None:
  assumes "match_window s = None"
  shows "\<not> pattern_at s 0 q u"
proof
  assume "pattern_at s 0 q u"
  then obtain seps post where s: "s = q @ seps @ u @ post"
    and shaped: "quantity_shaped q" "list_all is_sep seps" "u \<in> set units"
    by (auto simp: pattern_at_def)
  have "q \<in> set (quantity_candidates s)"
    unfolding s using shaped by (rule quantity_shaped_candidate)
  moreover have "match_seps_unit (drop (length q) s) \<noteq> None"
    unfolding s using match_seps_unit_complete [OF shaped(2,3)] by simp
  ultimately have "first_match s (quantity_candidates s) \<noteq> None"
    by (rule first_match_complete)
  then show False using assms by (simp add: match_window_def)
qed

lemma pattern_at_Suc: "pattern_at (c # cs) (Suc k) q u \<longleftrightarrow> pattern_at cs k q u"
  by (simp add: pattern_at_def)

lemma search_window_Some:
  "search_window s = Some (q, u) \<Longrightarrow>
     \<exists>k. pattern_at s k q u \<and> (\<forall>k' q' u'. pattern_at s k' q' u' \<longrightarrow> k \<le> k')"
proof (induction s)
  case Nil
  then have "pattern_at [] 0 q u" using match_window_Some by simp
  then show ?case by blast
next
  case (Cons c cs)
  show ?case
  proof (cases "match_window (c # cs)")
    case (Some g)
    then have "pattern_at (c # cs) 0 q u"
      using Cons.prems match_window_Some by simp
    then show ?thesis by blast
  next
    case None
    then have "search_window cs = Some (q, u)" using Cons.prems by simp
    then obtain k where k: "pattern_at cs k q u"
      "\<forall>k' q' u'. pattern_at cs k' q' u' \<longrightarrow> k \<le> k'"
      using Cons.IH by blast
    have "pattern_at (c # cs) (Suc k) q u"
      using k(1) by (simp add: pattern_at_Suc)
    moreover have "Suc k \<le> k'" if "pattern_at (c # cs) k' q' u'" for k' q' u'
    proof (cases k')
      case 0
      then show ?thesis using that match_window_None [OF None] by simp
    next
      case (Suc j)
      then have "pattern_at cs j q' u'" using that by (simp add: pattern_at_Suc)
      then have "k \<le> j" using k(2) by blast
      then show ?thesis using Suc by simp
    qed
    ultimately show ?thesis by blast
  qed
qed

lemma search_window_None:
  "search_window s = None \<Longrightarrow> \<not> pattern_at s k q u"
proof (induction s arbitrary: k)
  case Nil
  have "pattern_at [] k q u \<Longrightarrow> pattern_at [] 0 q u"
    by (auto simp: pattern_at_def)
  then show ?case using match_window_None [of "[]" q u] Nil by auto
next
  case (Cons c cs)
  then have none: "match_window (c # cs) = None" "search_window cs = None"
    by (auto split: option.splits)
  show ?case
  proof (cases k)
    case 0
    then show ?thesis using match_window_None [OF none(1)] by simp
  next
    case (Suc j)
    then show ?thesis using Cons.IH [OF none(2)] by (simp add: pattern_at_Suc)
  qed
qed

lemma decimal_nonneg_aux:
  "0 \<le> a \<Longrightarrow> list_all is_09 q \<Longrightarrow> 0 \<le> foldl (\<lambda>a c. 10 * a + (int (of_char c) - 48)) a q"
  by (induction q arbitrary: a) (auto simp: is_09_def in_range_def)

lemma decimal_nonneg: "list_all is_09 q \<Longrightarrow> 0 \<le> decimal q"
  unfolding decimal_def by (rule decimal_nonneg_aux) simp_all

lemma number_word_facts:
  assumes "q \<in> set (map fst number_words)"
  shows "\<not> isdigit q \<and> \<not> list_all is_09 q
     \<and> (\<exists>v. map_of number_words q = Some v \<and> 1 \<le> v \<and> v \<le> 12)"
  using assms
  by (auto simp: number_words_def isdigit_def is_09_def in_range_def)

lemma window_of_days:
  assumes "0 \<le> days"
  shows "(case timedelta days of
        Inl e \<Rightarrow> Inl e
      | Inr delta \<Rightarrow>
          (case datetime_sub now delta of
             Inl e \<Rightarrow> Inl e
           | Inr start \<Rightarrow>
               Inr [(''start_date'', PStr (strftime_ymd start)),
                    (''end_date'', PStr (strftime_ymd now))])) =
     (if 999999999 < days
      then Inl (OverflowError ''timedelta # of days is too large'')
      else if valid_ordinal (now - days)
      then Inr (window now days)
      else Inl (OverflowError ''date value out of range''))"
  using assms by (simp add: timedelta_def datetime_sub_def window_def)

lemma window_of_units:
  assumes "u \<in> set units" "0 \<le> quantity"
  shows "window_of now quantity u =
     (if 999999999 < delta_days quantity u
      then Inl (OverflowError ''timedelta # of days is too large'')
      else if valid_ordinal (now - delta_days quantity u)
      then Inr (window now (delta_days quantity u))
      else Inl (OverflowError ''date value out of range''))"
proof -
  from assms(1) consider "u = ''day''" | "u = ''week''" | "u = ''month''" | "u = ''year''"
    by (auto simp: units_def)
  then show ?thesis
  proof cases
    case 1
    then show ?thesis
      using window_of_days [of quantity now] assms(2)
      by (simp add: window_of_def startswith_def delta_days_def)
  next
    case 2
    then show ?thesis
      using window_of_days [of "7 * quantity" now] assms(2)
      by (simp add: window_of_def startswith_def delta_days_def mult.commute)
  next
    case 3
    then show ?thesis
      using window_of_days [of "30 * quantity" now] assms(2)
      by (simp add: window_of_def startswith_def delta_days_def mult.commute)
  next
    case 4
    then show ?thesis
      using window_of_days [of "365 * quantity" now] assms(2)
      by (simp add: window_of_def startswith_def delta_days_def mult.commute)
  qed
qed

lemma quantity_value_nonneg:
  assumes "quantity_shaped q"
  shows "0 \<le> quantity_value q"
proof (cases "q \<in> set (map fst number_words)")
  case True
  from number_word_facts [OF this] show ?thesis
    by (auto simp: quantity_value_def)
next
  case False
  then have "list_all is_09 q"
    using assms by (auto simp: quantity_shaped_def)
  then show ?thesis
    using decimal_nonneg by (simp add: quantity_value_def)
qed

lemma quantity_resolved:
  assumes "quantity_shaped q" "\<not> too_long q"
  shows "(if isdigit q then int_of_string q
          else Inr (case map_of number_words q of None \<Rightarrow> 1 | Some v \<Rightarrow> v))
         = Inr (quantity_value q)"
proof (cases "q \<in> set (map fst number_words)")
  case True
  from number_word_facts [OF this] show ?thesis
    by (auto simp: quantity_value_def)
next
  case False
  then have q: "q \<noteq> []" "list_all is_09 q"
    using assms(1) by (auto simp: quantity_shaped_def)
  then have "isdigit q" by (auto simp: isdigit_def list_all_iff)
  moreover have "\<not> 4300 < length q"
    using assms(2) q(2) by (simp add: too_long_def)
  ultimately show ?thesis
    using q by (simp add: int_of_string_def quantity_value_def)
qed

lemma quantity_refused:
  assumes "too_long q"
  shows "(if isdigit q then int_of_string q
          else Inr (case map_of number_words q of None \<Rightarrow> 1 | Some v \<Rightarrow> v))
         = Inl int_limit_error"
proof -
  have q: "list_all is_09 q" "4300 < length q"
    using assms by (simp_all add: too_long_def)
  then have "q \<noteq> []" by auto
  then have "isdigit q" using q(1) by (auto simp: isdigit_def list_all_iff)
  then show ?thesis
    using q \<open>q \<noteq> []\<close> by (simp add: int_of_string_def int_limit_error_def)
qed

subsection \<open>The result of time window extraction\<close>

lemma extract_time_window_cases:
  "extract_time_window now text =
     (case search_window (lower text) of
        Some (q, u) \<Rightarrow>
          if too_long q then Inl int_limit_error else window_of now (quantity_value q) u
      | None \<Rightarrow>
          if sublist ''last year'' (lower text) then window_of now 1 ''year''
          else if sublist ''last month'' (lower text) then window_of now 1 ''month''
          else if sublist ''last week'' (lower text) then window_of now 1 ''week''
          else Inr [])"
proof (cases "search_window (lower text)")
  case None
  then show ?thesis
    by (simp add: extract_time_window_def contains_sublist)
next
  case (Some g)
  obtain q u where g: "g = (q, u)" by (cases g)
  then obtain k where "pattern_at (lower text) k q u"
    using search_window_Some Some by blast
  then have shaped: "quantity_shaped q" by (auto simp: pattern_at_def)
  show ?thesis
  proof (cases "too_long q")
    case True
    from quantity_refused [OF this] show ?thesis
      using Some g True by (simp add: extract_time_window_def)
  next
    case False
    from quantity_resolved [OF shaped this] show ?thesis
      using Some g False by (simp add: extract_time_window_def)
  qed
qed






lemma two_weeks: "\<not> too_long ''2''" "delta_days (quantity_value ''2'') ''week'' = 14"
  by (simp_all add: too_long_def quantity_value_def delta_days_def decimal_def is_09_def
      in_range_def)




subsection \<open>The leftmost occurrence decides\<close>

lemma match_unit_exact: "u \<in> set units \<Longrightarrow> match_unit (u @ post) = Some u"
  by (auto simp: units_def match_unit_def)

lemma unit_not_sep: "u \<in> set units \<Longrightarrow> u \<noteq> [] \<and> \<not> is_sep (hd u) \<and> \<not> is_09 (hd u)"
  by (auto simp: units_def is_sep_def is_space_def is_09_def in_range_def)

lemma sep_not_digit: "is_sep c \<Longrightarrow> \<not> is_09 c"
  by (auto simp: is_sep_def is_space_def is_09_def in_range_def)

lemma match_seps_unit_exact:
  assumes "list_all is_sep seps" "u \<in> set units"
  shows "match_seps_unit (seps @ u @ post) = Some u"
  using assms(1)
proof (induction seps)
  case Nil
  obtain c cs where u: "u = c # cs" "\<not> is_sep c"
    using unit_not_sep [OF assms(2)] by (cases u) auto
  then show ?case
    using match_unit_exact [OF assms(2), of post] by (simp add: is_sep_def)
next
  case (Cons c seps)
  then show ?case by (simp add: is_sep_def)
qed

lemma rest_not_digit:
  assumes "list_all is_sep seps" "u \<in> set units"
  shows "takeWhile is_09 (seps @ u @ post) = []"
proof (cases seps)
  case Nil
  then show ?thesis
    using unit_not_sep [OF assms(2)] by (cases u) auto
next
  case (Cons c cs)
  then show ?thesis using assms(1) sep_not_digit by auto
qed

lemma rev_tl_prefixes: "q \<noteq> [] \<Longrightarrow> rev (tl (prefixes q)) = q # rev (tl (prefixes (butlast q)))"
  by (cases q rule: rev_cases) simp_all

lemma number_word_letter:
  "q \<in> set (map fst number_words) \<Longrightarrow> q \<noteq> [] \<and> \<not> is_09 (hd q)"
  by (auto simp: number_words_def is_09_def in_range_def)

lemma number_words_prefix_free_all:
  "list_all (\<lambda>w. list_all (\<lambda>q. \<not> prefix w q \<or> w = q) (map fst number_words))
     (map fst number_words)"
  by (simp add: number_words_def)

lemma number_words_prefix_free:
  "w \<in> set (map fst number_words) \<Longrightarrow> q \<in> set (map fst number_words) \<Longrightarrow> prefix w q
     \<Longrightarrow> w = q"
  using number_words_prefix_free_all unfolding list_all_iff by blast

lemma first_match_filter_unique:
  assumes "\<forall>w \<in> set ws. P w \<longrightarrow> w = q" "q \<in> set ws" "P q"
      and "match_seps_unit (drop (length q) s) = Some u"
  shows "first_match s (filter P ws) = Some (q, u)"
  using assms(1,2)
proof (induction ws)
  case Nil
  then show ?case by simp
next
  case (Cons w ws)
  show ?case
  proof (cases "P w")
    case True
    then have "w = q" using Cons.prems(1) by simp
    then have "filter P (w # ws) = q # filter P ws" using assms(3) by simp
    then show ?thesis using assms(4) by simp
  next
    case False
    then have "q \<noteq> w" using assms(3) by blast
    then have "q \<in> set ws" using Cons.prems(2) by simp
    moreover have "\<forall>w \<in> set ws. P w \<longrightarrow> w = q" using Cons.prems(1) by simp
    ultimately have "first_match s (filter P ws) = Some (q, u)" by (rule Cons.IH [rotated])
    then show ?thesis using False by simp
  qed
qed

lemma match_window_exact:
  assumes "pattern_at s 0 q u"
  shows "match_window s = Some (q, u)"
proof -
  from assms obtain seps post where s: "s = q @ seps @ u @ post"
    and shaped: "quantity_shaped q" "list_all is_sep seps" "u \<in> set units"
    by (auto simp: pattern_at_def)
  have unit: "match_seps_unit (drop (length q) s) = Some u"
    unfolding s using match_seps_unit_exact [OF shaped(2,3)] by simp
  show ?thesis
  proof (cases "q \<in> set (map fst number_words)")
    case True
    obtain c cs where "q = c # cs" "\<not> is_09 c"
      using number_word_letter [OF True] by (cases q) auto
    then have "takeWhile is_09 s = []"
      unfolding s by simp
    then have cands: "quantity_candidates s = filter (\<lambda>w. prefix w s) (map fst number_words)"
      by (simp add: quantity_candidates_def)
    have q: "prefix q s" unfolding s by simp
    have "w = q" if "w \<in> set (map fst number_words)" "prefix w s" for w
      using prefix_same_cases [OF that(2) q]
        number_words_prefix_free [OF that(1) True] number_words_prefix_free [OF True that(1)]
      by auto
    then have "\<forall>w \<in> set (map fst number_words). prefix w s \<longrightarrow> w = q" by blast
    from first_match_filter_unique [OF this True q unit] show ?thesis
      by (simp add: match_window_def cands)
  next
    case False
    then have q: "q \<noteq> []" "list_all is_09 q"
      using shaped(1) by (auto simp: quantity_shaped_def)
    have "takeWhile is_09 s = q"
      unfolding s using q(2) rest_not_digit [OF shaped(2,3)]
      by (simp add: takeWhile_append2 list_all_iff)
    then have "quantity_candidates s =
        q # rev (tl (prefixes (butlast q))) @ filter (\<lambda>w. prefix w s) (map fst number_words)"
      using rev_tl_prefixes [OF q(1)] by (simp add: quantity_candidates_def)
    then show ?thesis
      using unit by (simp add: match_window_def)
  qed
qed

lemma search_window_leftmost:
  "leftmost_pattern s k q u \<Longrightarrow> search_window s = Some (q, u)"
proof (induction s arbitrary: k)
  case Nil
  then have "pattern_at [] 0 q u" by (auto simp: leftmost_pattern_def pattern_at_def)
  then show ?case using match_window_exact by simp
next
  case (Cons c cs)
  show ?case
  proof (cases k)
    case 0
    then have "match_window (c # cs) = Some (q, u)"
      using Cons.prems match_window_exact by (simp add: leftmost_pattern_def)
    then show ?thesis by simp
  next
    case (Suc j)
    have none: "match_window (c # cs) = None"
    proof (rule ccontr)
      assume "match_window (c # cs) \<noteq> None"
      then obtain q' u' where "match_window (c # cs) = Some (q', u')" by auto
      then have "pattern_at (c # cs) 0 q' u'" by (rule match_window_Some)
      then show False using Cons.prems Suc by (auto simp: leftmost_pattern_def)
    qed
    have "pattern_at cs j q u"
      using Cons.prems Suc by (simp add: leftmost_pattern_def pattern_at_Suc)
    moreover have "j \<le> k'" if "pattern_at cs k' q' u'" for k' q' u'
    proof -
      have "pattern_at (c # cs) (Suc k') q' u'" using that by (simp add: pattern_at_Suc)
      then have "k \<le> Suc k'" using Cons.prems by (auto simp: leftmost_pattern_def)
      then show ?thesis using Suc by simp
    qed
    ultimately have "leftmost_pattern cs j q u"
      by (auto simp: leftmost_pattern_def)
    then have "search_window cs = Some (q, u)" by (rule Cons.IH)
    then show ?thesis using none by simp
  qed
qed

lemma no_pattern_search: "(\<forall>k q u. \<not> pattern_at s k q u) \<Longrightarrow> search_window s = None"
proof (cases "search_window s")
  case None
  then show ?thesis by simp
next
  case (Some g)
  assume none: "\<forall>k q u. \<not> pattern_at s k q u"
  obtain q u where "g = (q, u)" by (cases g)
  then obtain k where "pattern_at s k q u"
    using search_window_Some Some by blast
  then show ?thesis using none by blast
qed

lemma window_of_representable:
  assumes "u \<in> set units" "0 \<le> quantity" "representable now (delta_days quantity u)"
  shows "window_of now quantity u = Inr (window now (delta_days quantity u))"
  using assms(3) unfolding window_of_units [OF assms(1,2)] representable_def by simp

lemma extract_time_window_leftmost:
  assumes "leftmost_pattern (lower text) k q u" "\<not> too_long q"
      and "representable now (delta_days (quantity_value q) u)"
  shows "extract_time_window now text = Inr (window now (delta_days (quantity_value q) u))"
proof -
  have "search_window (lower text) = Some (q, u)"
    using assms(1) by (rule search_window_leftmost)
  then have "extract_time_window now text = window_of now (quantity_value q) u"
    using assms(2) by (simp add: extract_time_window_cases)
  moreover have "quantity_shaped q" "u \<in> set units"
    using assms(1) by (auto simp: leftmost_pattern_def pattern_at_def)
  moreover from this have "0 \<le> quantity_value q"
    using quantity_value_nonneg by blast
  ultimately show ?thesis
    using window_of_representable assms(3) by simp
qed

lemma extract_time_window_refused:
  assumes "leftmost_pattern (lower text) k q u" "too_long q"
  shows "extract_time_window now text = Inl int_limit_error"
proof -
  have "search_window (lower text) = Some (q, u)"
    using assms(1) by (rule search_window_leftmost)
  then show ?thesis
    using assms(2) by (simp add: extract_time_window_cases)
qed

lemma extract_time_window_phrases:
  assumes "\<forall>k q u. \<not> pattern_at (lower text) k q u"
  shows "if sublist ''last year'' (lower text)
         then representable now 365 \<longrightarrow> extract_time_window now text = Inr (window now 365)
         else if sublist ''last month'' (lower text)
         then representable now 30 \<longrightarrow> extract_time_window now text = Inr (window now 30)
         else if sublist ''last week'' (lower text)
         then representable now 7 \<longrightarrow> extract_time_window now text = Inr (window now 7)
         else extract_time_window now text = Inr []"
proof -
  have none: "search_window (lower text) = None"
    using assms by (rule no_pattern_search)
  have year: "representable now 365 \<Longrightarrow> window_of now 1 ''year'' = Inr (window now 365)"
    using window_of_representable [of "''year''" 1 now] by (simp add: units_def delta_days_def)
  have month: "representable now 30 \<Longrightarrow> window_of now 1 ''month'' = Inr (window now 30)"
    using window_of_representable [of "''month''" 1 now] by (simp add: units_def delta_days_def)
  have week: "representable now 7 \<Longrightarrow> window_of now 1 ''week'' = Inr (window now 7)"
    using window_of_representable [of "''week''" 1 now] by (simp add: units_def delta_days_def)
  show ?thesis
    using none year month week by (simp add: extract_time_window_cases)
qed

lemma three_months_pattern:
  "pattern_at (pre @ ''three months'' @ post) (length pre) ''three'' ''month''"
proof -
  have "drop (length pre) (pre @ ''three months'' @ post)
      = ''three'' @ '' '' @ ''month'' @ (''s'' @ post)"
    by simp
  moreover have "quantity_shaped ''three''"
    by (simp add: quantity_shaped_def number_words_def)
  moreover have "list_all is_sep '' ''"
    by (simp add: is_sep_def is_space_def in_range_def)
  moreover have "''month'' \<in> set units"
    by (simp add: units_def)
  ultimately show ?thesis
    unfolding pattern_at_def by (metis length_append le_add1)
qed

lemma quantity_value_three: "quantity_value ''three'' = 3" "\<not> too_long ''three''"
  by (simp_all add: quantity_value_def too_long_def number_words_def is_09_def in_range_def)

lemma extract_time_window_three_months:
  assumes "lower text = pre @ ''three months'' @ post"
      and "\<forall>k' q' u'. pattern_at (lower text) k' q' u' \<longrightarrow> length pre \<le> k'"
      and "representable now 90"
  shows "extract_time_window now text = Inr (window now 90)"
proof -
  have "leftmost_pattern (lower text) (length pre) ''three'' ''month''"
    using assms(1,2) three_months_pattern [of pre post] by (simp add: leftmost_pattern_def)
  moreover have "delta_days (quantity_value ''three'') ''month'' = 90"
    by (simp add: quantity_value_three delta_days_def)
  ultimately show ?thesis
    using extract_time_window_leftmost [of "text" "length pre" "''three''" "''month''" now]
      assms(3) quantity_value_three(2)
    by simp
qed

lemma search_hello_world: "search_window (lower ''hello world'') = None"
  by code_simp

lemma extract_time_window_hello_world: "extract_time_window now ''hello world'' = Inr []"
proof -
  have "\<not> contains ''last year'' (lower ''hello world'')"
    "\<not> contains ''last month'' (lower ''hello world'')"
    "\<not> contains ''last week'' (lower ''hello world'')"
    by code_simp+
  then show ?thesis
    using search_hello_world by (simp add: extract_time_window_cases contains_sublist)
qed

text \<open>
  C6 (as amended). \<open>extract_time_window\<close> works on the lower-cased text. When the pattern
  (a digit sequence or a number word "one" to "twelve", separators, a unit day, week, month or
  year) occurs, the leftmost occurrence decides, with its quantity \<open>q\<close> and unit \<open>u\<close>: a
  digit sequence of more than 4300 digits is refused with \<open>ValueError\<close>; otherwise, and
  provided the window is representable, the result is the window of \<open>q\<close> days, \<open>q\<close> times 7,
  30 or 365 days that ends at \<open>now\<close>. When the pattern occurs nowhere, the phrases
  "last year", "last month", "last week" are tried in this order and give 365, 30 or 7 days;
  without any of them there is no window. So a text in which "three months" is the leftmost
  occurrence of the pattern gives the window of 90 days, and "hello world" gives none.
\<close>

theorem extract_time_window_resolution:
  "(leftmost_pattern (lower text) k q u \<and> \<not> too_long q
      \<and> representable now (delta_days (quantity_value q) u)
      \<longrightarrow> extract_time_window now text = Inr (window now (delta_days (quantity_value q) u)))
   \<and> (leftmost_pattern (lower text) k q u \<and> too_long q
      \<longrightarrow> extract_time_window now text = Inl int_limit_error)
   \<and> ((\<forall>k q u. \<not> pattern_at (lower text) k q u) \<longrightarrow>
        (if sublist ''last year'' (lower text)
         then representable now 365 \<longrightarrow> extract_time_window now text = Inr (window now 365)
         else if sublist ''last month'' (lower text)
         then representable now 30 \<longrightarrow> extract_time_window now text = Inr (window now 30)
         else if sublist ''last week'' (lower text)
         then representable now 7 \<longrightarrow> extract_time_window now text = Inr (window now 7)
         else extract_time_window now text = Inr []))
   \<and> (lower text = pre @ ''three months'' @ post
        \<and> (\<forall>k' q' u'. pattern_at (lower text) k' q' u' \<longrightarrow> length pre \<le> k')
        \<and> representable now 90
      \<longrightarrow> extract_time_window now text = Inr (window now 90))
   \<and> extract_time_window now ''hello world'' = Inr []"
  using extract_time_window_leftmost [of "text" k q u now]
    extract_time_window_refused [of "text" k q u now]
    extract_time_window_phrases [of "text" now]
    extract_time_window_three_months [of "text" pre post now]
    extract_time_window_hello_world [of now]
  by blast

lemma search_two_weeks: "search_window (lower ''Show TechCo sales last 2 weeks'') = Some (''2'', ''week'')"
  by code_simp

lemma search_last_year: "search_window (lower ''sales last year'') = None"
  by code_simp

lemma sublist_last_year: "sublist ''last year'' (lower ''sales last year'')"
  unfolding contains_sublist [symmetric] by code_simp

lemma lower_three_months: "lower ''Three months'' = [] @ ''three months'' @ []"
  by code_simp

lemma representable_example:
  "representable example_now 14" "representable example_now 365" "representable example_now 90"
  by (simp_all add: representable_def valid_ordinal_def example_now_def max_ordinal_def)



lemma lower_zeros_days:
  "lower (replicate n CHR ''0'' @ '' days'') = replicate n CHR ''0'' @ '' '' @ ''day'' @ ''s''"
  by (simp add: lower_def lower_char_def is_AZ_def in_range_def)

lemma zeros_shaped: "0 < n \<Longrightarrow> quantity_shaped (replicate n CHR ''0'')"
  by (simp add: quantity_shaped_def list_all_iff is_09_def in_range_def)

lemma zeros_too_long: "4300 < n \<Longrightarrow> too_long (replicate n CHR ''0'')"
  by (simp add: too_long_def list_all_iff is_09_def in_range_def)

lemma zeros_days_leftmost:
  assumes "0 < n"
  shows "leftmost_pattern (lower (replicate n CHR ''0'' @ '' days'')) 0
           (replicate n CHR ''0'') ''day''"
proof -
  have "list_all is_sep '' ''"
    by (simp add: is_sep_def is_space_def in_range_def)
  moreover have "''day'' \<in> set units"
    by (simp add: units_def)
  ultimately have "pattern_at (replicate n CHR ''0'' @ '' '' @ ''day'' @ ''s'') 0
      (replicate n CHR ''0'') ''day''"
    unfolding pattern_at_def using zeros_shaped [OF assms] by (metis drop0 le0)
  then show ?thesis
    by (simp add: leftmost_pattern_def lower_zeros_days)
qed

theorem extract_time_window_resolution_witness:
  "(\<exists>k. leftmost_pattern (lower ''Show TechCo sales last 2 weeks'') k ''2'' ''week'')
   \<and> \<not> too_long ''2''
   \<and> representable example_now 14
   \<and> extract_time_window example_now ''Show TechCo sales last 2 weeks''
       = Inr (window example_now 14)
   \<and> (\<forall>k q u. \<not> pattern_at (lower ''sales last year'') k q u)
   \<and> sublist ''last year'' (lower ''sales last year'')
   \<and> representable example_now 365
   \<and> extract_time_window example_now ''sales last year'' = Inr (window example_now 365)
   \<and> lower ''Three months'' = [] @ ''three months'' @ []
   \<and> representable example_now 90
   \<and> extract_time_window example_now ''Three months'' = Inr (window example_now 90)
   \<and> leftmost_pattern (lower (replicate 4301 CHR ''0'' @ '' days'')) 0
        (replicate 4301 CHR ''0'') ''day''
   \<and> too_long (replicate 4301 CHR ''0'')
   \<and> extract_time_window example_now (replicate 4301 CHR ''0'' @ '' days'')
       = Inl int_limit_error"
proof -
  have zeros: "leftmost_pattern (lower (replicate 4301 CHR ''0'' @ '' days'')) 0
           (replicate 4301 CHR ''0'') ''day''"
    by (rule zeros_days_leftmost) simp
  have long: "too_long (replicate 4301 CHR ''0'')"
    by (rule zeros_too_long) simp
  have refused: "extract_time_window example_now (replicate 4301 CHR ''0'' @ '' days'')
       = Inl int_limit_error"
    using extract_time_window_resolution
      [of "replicate 4301 CHR ''0'' @ '' days''" 0 "replicate 4301 CHR ''0''" "''day''"
        example_now]
      zeros long
    by blast
  obtain k where k: "leftmost_pattern (lower ''Show TechCo sales last 2 weeks'') k ''2'' ''week''"
    using search_window_Some [OF search_two_weeks] by (auto simp: leftmost_pattern_def)
  have weeks: "extract_time_window example_now ''Show TechCo sales last 2 weeks''
       = Inr (window example_now 14)"
    using extract_time_window_resolution
      [of "''Show TechCo sales last 2 weeks''" k "''2''" "''week''" example_now]
      k representable_example(1)
    by (simp add: two_weeks)
  have none: "\<forall>k q u. \<not> pattern_at (lower ''sales last year'') k q u"
    using search_window_None [OF search_last_year] by blast
  have year: "extract_time_window example_now ''sales last year'' = Inr (window example_now 365)"
    using extract_time_window_resolution [of "''sales last year''" _ _ _ example_now]
      none sublist_last_year representable_example(2)
    by simp
  have months: "extract_time_window example_now ''Three months'' = Inr (window example_now 90)"
    using extract_time_window_resolution [of "''Three months''" _ _ _ example_now "[]" "[]"]
      lower_three_months representable_example(3)
    by simp
  show ?thesis
    using k weeks none year months sublist_last_year lower_three_months representable_example
      two_weeks(1) zeros long refused
    by blast
qed

lemma sublist_three_months: "sublist ''three months'' (lower ''2 weeks or three months'')"
  unfolding contains_sublist [symmetric] by code_simp

lemma extract_two_weeks_or_three_months:
  "extract_time_window example_now ''2 weeks or three months''
     = Inr [(''start_date'', PStr ''2026-10-20''), (''end_date'', PStr ''2026-11-03'')]"
  by code_simp

lemma window_example_90:
  "window example_now 90
     = [(''start_date'', PStr ''2026-08-05''), (''end_date'', PStr ''2026-11-03'')]"
  by code_simp

text \<open>
  C6 as stated fails for a text that contains "three months" behind an earlier occurrence of
  the pattern: "2 weeks or three months" gives the window of 14 days, not of 90.
\<close>

theorem three_months_counterexample:
  "sublist ''three months'' (lower ''2 weeks or three months'')
   \<and> extract_time_window example_now ''2 weeks or three months''
       = Inr [(''start_date'', PStr ''2026-10-20''), (''end_date'', PStr ''2026-11-03'')]
   \<and> window example_now 90
       = [(''start_date'', PStr ''2026-08-05''), (''end_date'', PStr ''2026-11-03'')]
   \<and> extract_time_window example_now ''2 weeks or three months''
       \<noteq> Inr (window example_now 90)"
  using sublist_three_months extract_two_weeks_or_three_months window_example_90
  by simp

subsection \<open>The leftmost brand token\<close>

lemma char_at_Cons [simp]:
  "char_at (c # cs) 0 = Some c" "char_at (c # cs) (Suc i) = char_at cs i" "char_at [] i = None"
  by (simp_all add: char_at_def)

lemma char_at_take: "take n s = t \<Longrightarrow> i < length t \<Longrightarrow> char_at s i = Some (t ! i)"
  by (auto simp: char_at_def)

lemma match_tail_sound:
  "match_tail p s = Some m \<Longrightarrow>
     prefix m s \<and> list_all brand_char m
     \<and> boundary (Some (last (p # m))) (char_at s (length m))"
proof (induction s arbitrary: p m)
  case Nil
  then show ?case by (simp split: if_splits)
next
  case (Cons c cs)
  show ?case
  proof (cases "brand_char c \<and> match_tail c cs \<noteq> None")
    case True
    then obtain m' where m': "match_tail c cs = Some m'" by auto
    then have "m = c # m'" using Cons.prems True by simp
    then show ?thesis using Cons.IH [OF m'] True by simp
  next
    case False
    then have "m = [] \<and> boundary (Some p) (Some c)"
      using Cons.prems by (auto split: if_splits option.splits)
    then show ?thesis by simp
  qed
qed

lemma match_tail_longest:
  "prefix m' s \<Longrightarrow> list_all brand_char m' \<Longrightarrow>
   boundary (Some (last (p # m'))) (char_at s (length m')) \<Longrightarrow>
     \<exists>m. match_tail p s = Some m \<and> length m' \<le> length m"
proof (induction s arbitrary: p m')
  case Nil
  then show ?case by simp
next
  case (Cons c cs)
  show ?case
  proof (cases m')
    case Nil
    then have "boundary (Some p) (Some c)" using Cons.prems(3) by simp
    then show ?thesis using Nil by (simp split: option.splits)
  next
    case (Cons x m'')
    then have x: "x = c" "prefix m'' cs" "brand_char c" "list_all brand_char m''"
      using Cons.prems(1,2) by simp_all
    have "boundary (Some (last (c # m''))) (char_at cs (length m''))"
      using Cons.prems(3) Cons x(1) by simp
    from Cons.IH [OF x(2,4) this] obtain m where
      "match_tail c cs = Some m" "length m'' \<le> length m" by blast
    then show ?thesis using Cons x(3) by simp
  qed
qed

lemma brand_token_Cons:
  "brand_token t \<longleftrightarrow> (\<exists>c d ds. t = c # d # ds \<and> is_AZ c \<and> brand_char d \<and> list_all brand_char ds)"
  by (auto simp: brand_token_def split: list.splits)

lemma match_brand_sound:
  assumes "match_brand prev s = Some t"
  shows "token_at prev s 0 t"
proof -
  from assms obtain c d ds m where s: "s = c # d # ds" and t: "t = c # d # m"
    and c: "boundary prev (Some c)" "is_AZ c" "brand_char d"
    and m: "match_tail d ds = Some m"
    by (cases "(prev, s)" rule: match_brand.cases) (auto split: if_splits option.splits)
  from match_tail_sound [OF m] have tail: "prefix m ds" "list_all brand_char m"
    "boundary (Some (last (d # m))) (char_at ds (length m))" by simp_all
  have "take (length t) s = t"
    using tail(1) by (auto simp: s t prefix_def)
  moreover have "brand_token t"
    using c tail(2) by (simp add: brand_token_Cons t)
  moreover have "char_at s (length t - 1) = Some (last (d # m))"
  proof -
    have "char_at s (length t - 1) = char_at (d # ds) (length m)" by (simp add: s t)
    also have "\<dots> = Some ((d # m) ! length m)"
      using tail(1) by (intro char_at_take [of "Suc (length m)"]) (auto simp: prefix_def)
    also have "(d # m) ! length m = last (d # m)"
      by (metis last_conv_nth length_Cons diff_Suc_1 list.distinct(1))
    finally show ?thesis .
  qed
  moreover have "char_at s (length t) = char_at ds (length m)" by (simp add: s t)
  ultimately show ?thesis
    using c(1) tail(3) by (simp add: token_at_def s)
qed

lemma match_brand_longest:
  assumes "token_at prev s 0 t'"
  shows "\<exists>t. match_brand prev s = Some t \<and> length t' \<le> length t"
proof -
  from assms have tk: "take (length t') s = t'" "brand_token t'"
    "boundary prev (char_at s 0)"
    "boundary (char_at s (length t' - 1)) (char_at s (length t'))"
    by (simp_all add: token_at_def)
  from tk(2) obtain c d m' where t': "t' = c # d # m'"
    and c: "is_AZ c" "brand_char d" "list_all brand_char m'"
    by (auto simp: brand_token_Cons)
  have "prefix t' s"
    using tk(1) take_is_prefix [of "length t'" s] by simp
  then have "\<exists>zs. s = c # d # m' @ zs"
    by (simp add: t' prefix_def)
  then obtain ds where s: "s = c # d # ds" and pre: "prefix m' ds"
    by (auto simp: prefix_def)
  have "char_at s (length t' - 1) = Some (last (d # m'))"
  proof -
    have "char_at s (length t' - 1) = char_at (d # ds) (length m')" by (simp add: s t')
    also have "\<dots> = Some ((d # m') ! length m')"
      using pre by (intro char_at_take [of "Suc (length m')"]) (auto simp: prefix_def)
    also have "(d # m') ! length m' = last (d # m')"
      by (metis last_conv_nth length_Cons diff_Suc_1 list.distinct(1))
    finally show ?thesis .
  qed
  moreover have "char_at s (length t') = char_at ds (length m')" by (simp add: s t')
  ultimately have "boundary (Some (last (d # m'))) (char_at ds (length m'))"
    using tk(4) by simp
  from match_tail_longest [OF pre c(3) this] obtain m where
    m: "match_tail d ds = Some m" "length m' \<le> length m" by blast
  have "boundary prev (Some c)" using tk(3) by (simp add: s)
  then have "match_brand prev s = Some (c # d # m)"
    using c m(1) by (simp add: s)
  then show ?thesis using m(2) by (simp add: t')
qed

lemma lower_char_az: "is_az (lower_char c) \<Longrightarrow> is_AZ c \<or> is_az c"
  by (auto simp: lower_char_def is_az_def is_AZ_def in_range_def split: if_splits)

lemma letter_is_word: "is_AZ c \<or> is_az c \<Longrightarrow> is_word c"
  by (auto simp: is_word_def)

lemma stopwords_az: "w \<in> set stopwords \<Longrightarrow> list_all is_az w"
  by (auto simp: stopwords_def is_az_def in_range_def)

lemma stopword_letters:
  assumes "lower t \<in> set stopwords"
  shows "list_all is_word t"
proof -
  have "list_all is_az (map lower_char t)"
    using stopwords_az [OF assms] by (simp add: lower_def)
  then show ?thesis
    using lower_char_az letter_is_word by (auto simp: list_all_iff)
qed

lemma no_inner_boundary:
  assumes "take (length m) s = m" "list_all is_word m" "0 < j" "j < length m"
  shows "\<not> boundary (char_at s (j - 1)) (char_at s j)"
proof -
  have "char_at s (j - 1) = Some (m ! (j - 1))" "char_at s j = Some (m ! j)"
    using assms(1,3,4) by (auto intro: char_at_take)
  moreover have "is_word (m ! (j - 1))" "is_word (m ! j)"
    using assms(2,3,4) by (auto simp: list_all_length)
  ultimately show ?thesis by (simp add: boundary_def is_word_opt_def)
qed

lemma brand_token_length: "brand_token t \<Longrightarrow> 2 \<le> length t"
  by (auto simp: brand_token_Cons)

lemma token_at_Suc: "token_at prev (c # cs) (Suc k) t \<longleftrightarrow> token_at (Some c) cs k t"
proof (cases "brand_token t")
  case False
  then show ?thesis by (simp add: token_at_def)
next
  case True
  then obtain l where l: "length t = Suc l"
    using brand_token_length [of t] by (cases "length t") auto
  have "char_at (c # cs) k = (if k = 0 then Some c else char_at cs (k - 1))"
    by (cases k) simp_all
  then show ?thesis by (simp add: token_at_def l)
qed

lemma token_at_drop:
  "0 < n \<Longrightarrow> n \<le> length s \<Longrightarrow>
     token_at prev s (n + k) t \<longleftrightarrow> token_at (Some (s ! (n - 1))) (drop n s) k t"
proof (induction s arbitrary: n prev)
  case Nil
  then show ?case by simp
next
  case (Cons c cs)
  then obtain n' where n: "n = Suc n'" by (cases n) auto
  show ?case
  proof (cases "n' = 0")
    case True
    then show ?thesis using n token_at_Suc by simp
  next
    case False
    then have "token_at (Some c) cs (n' + k) t
        \<longleftrightarrow> token_at (Some (cs ! (n' - 1))) (drop n' cs) k t"
      using Cons.IH [of n' "Some c"] Cons.prems n by simp
    moreover have "(c # cs) ! (n - 1) = cs ! (n' - 1)"
      using False n by (simp add: nth_Cons')
    ultimately show ?thesis using n token_at_Suc by simp
  qed
qed

lemma first_qualifying_shift:
  assumes n: "0 < n" "n \<le> length s"
      and before: "\<forall>k t. k < n \<longrightarrow> \<not> qualifying prev s k t"
      and rest: "first_qualifying (Some (s ! (n - 1))) (drop n s) r"
  shows "first_qualifying prev s r"
proof -
  have shift: "qualifying prev s (n + j) t \<longleftrightarrow> qualifying (Some (s ! (n - 1))) (drop n s) j t"
    for j t
    using token_at_drop [OF n] by (simp add: qualifying_def)
  have later: "\<exists>j. k = n + j \<and> qualifying (Some (s ! (n - 1))) (drop n s) j t"
    if "qualifying prev s k t" for k t
  proof -
    have "n \<le> k" using that before by (meson not_le)
    then obtain j where "k = n + j" using le_Suc_ex by blast
    then show ?thesis using that shift by blast
  qed
  show ?thesis
  proof (cases r)
    case None
    then show ?thesis
      using rest later by (fastforce simp: first_qualifying_def)
  next
    case (Some b)
    then obtain j where j: "qualifying (Some (s ! (n - 1))) (drop n s) j b"
      and least: "\<forall>j' t'. qualifying (Some (s ! (n - 1))) (drop n s) j' t' \<longrightarrow>
                   j \<le> j' \<and> (j' = j \<longrightarrow> length t' \<le> length b)"
      using rest by (auto simp: first_qualifying_def)
    have "qualifying prev s (n + j) b" using j shift by blast
    moreover have "n + j \<le> k' \<and> (k' = n + j \<longrightarrow> length t' \<le> length b)"
      if "qualifying prev s k' t'" for k' t'
    proof -
      from later [OF that] obtain j' where
        "k' = n + j'" "qualifying (Some (s ! (n - 1))) (drop n s) j' t'" by blast
      then show ?thesis using least by auto
    qed
    ultimately show ?thesis
      using Some unfolding first_qualifying_def by (simp only: option.case) blast
  qed
qed

lemma no_token_empty: "\<not> token_at prev [] k t"
  by (auto simp: token_at_def brand_token_def)

lemma token_at_0D:
  "token_at prev s 0 t \<Longrightarrow>
     take (length t) s = t \<and> brand_token t \<and> boundary prev (char_at s 0)
     \<and> boundary (char_at s (length t - 1)) (char_at s (length t))"
  by (simp add: token_at_def)

lemma token_at_posD:
  "0 < k \<Longrightarrow> token_at prev s k t \<Longrightarrow> boundary (char_at s (k - 1)) (char_at s k)"
  by (simp add: token_at_def)

lemma stopword_match_covers:
  assumes m: "match_brand prev s = Some m" and stop: "lower m \<in> set stopwords"
      and k: "k < length m"
  shows "\<not> qualifying prev s k t"
proof
  assume q: "qualifying prev s k t"
  then have tk: "token_at prev s k t" and t: "lower t \<notin> set stopwords"
    by (simp_all add: qualifying_def)
  have tm: "take (length m) s = m"
    using token_at_0D [OF match_brand_sound [OF m]] by blast
  have word: "list_all is_word m"
    using stop by (rule stopword_letters)
  show False
  proof (cases "k = 0")
    case True
    then have tk0: "token_at prev s 0 t" using tk by blast
    from match_brand_longest [OF this]
    obtain t0 where "match_brand prev s = Some t0" "length t \<le> length t0" by blast
    then have le: "length t \<le> length m" using m by simp
    have tt: "take (length t) s = t" and bt: "brand_token t"
      and be: "boundary (char_at s (length t - 1)) (char_at s (length t))"
      using token_at_0D [OF tk0] by blast+
    show False
    proof (cases "length t = length m")
      case True
      then have "t = m" using tt tm by metis
      then show False using t stop by blast
    next
      case False
      then have "0 < length t" "length t < length m"
        using le brand_token_length [OF bt] by linarith+
      from no_inner_boundary [OF tm word this]
      show False using be by blast
    qed
  next
    case False
    then have "0 < k" by simp
    from no_inner_boundary [OF tm word this k]
    show False using token_at_posD [OF \<open>0 < k\<close> tk] by blast
  qed
qed

lemma findall_brand_first_qualifying:
  "first_qualifying prev s (first_candidate (findall_brand prev s))"
proof (induction prev s rule: findall_brand.induct)
  case (1 prev)
  have "first_candidate (findall_brand prev []) = None" by simp
  then show ?case by (simp add: first_qualifying_def qualifying_def no_token_empty)
next
  case (2 prev c cs)
  show ?case
  proof (cases "match_brand prev (c # cs)")
    case None
    have "\<not> qualifying prev (c # cs) k t" if "k < 1" for k t
    proof
      assume "qualifying prev (c # cs) k t"
      moreover have "k = 0" using that by simp
      ultimately have "token_at prev (c # cs) 0 t" unfolding qualifying_def by blast
      from match_brand_longest [OF this] show False using None by simp
    qed
    then have before: "\<forall>k t. k < Suc 0 \<longrightarrow> \<not> qualifying prev (c # cs) k t"
      by simp
    have e: "(c # cs) ! (Suc 0 - 1) = c" "drop (Suc 0) (c # cs) = cs"
      by simp_all
    have "first_qualifying (Some c) cs (first_candidate (findall_brand (Some c) cs))"
      using "2.IH"(1) [OF None] .
    then have "first_qualifying (Some ((c # cs) ! (Suc 0 - 1))) (drop (Suc 0) (c # cs))
        (first_candidate (findall_brand (Some c) cs))"
      by (simp only: e)
    from first_qualifying_shift [OF _ _ before this]
    have "first_qualifying prev (c # cs) (first_candidate (findall_brand (Some c) cs))"
      by simp
    moreover have "findall_brand prev (c # cs) = findall_brand (Some c) cs"
      using None by (simp only: findall_brand.simps option.case)
    ultimately show ?thesis by (simp only:)
  next
    case (Some m)
    have tk: "token_at prev (c # cs) 0 m"
      using Some by (rule match_brand_sound)
    then have tm: "take (length m) (c # cs) = m" and len: "2 \<le> length m"
      using brand_token_length token_at_0D by blast+
    show ?thesis
    proof (cases "lower m \<in> set stopwords")
      case False
      have "qualifying prev (c # cs) 0 m"
        using tk False unfolding qualifying_def by blast
      moreover have "length t' \<le> length m" if "qualifying prev (c # cs) 0 t'" for t'
      proof -
        have "token_at prev (c # cs) 0 t'" using that unfolding qualifying_def by blast
        from match_brand_longest [OF this] show ?thesis using Some by simp
      qed
      ultimately have "first_qualifying prev (c # cs) (Some m)"
        unfolding first_qualifying_def by (simp only: option.case) blast
      moreover have "findall_brand prev (c # cs)
          = m # findall_brand (Some (last m)) (drop (length m - 1) cs)"
        using Some by (simp only: findall_brand.simps option.case)
      ultimately show ?thesis using False by (simp only: first_candidate.simps if_False)
    next
      case True
      have "length (take (length m) (c # cs)) = length m"
        using tm by (rule arg_cong)
      then have n: "0 < length m" "length m \<le> length (c # cs)"
        using len by auto
      have last: "(c # cs) ! (length m - 1) = last m"
      proof -
        have "take (length m) (c # cs) ! (length m - 1) = (c # cs) ! (length m - 1)"
          using n(1) by (intro nth_take) simp
        then have "m ! (length m - 1) = (c # cs) ! (length m - 1)"
          unfolding tm .
        then show ?thesis using n(1) by (simp add: last_conv_nth)
      qed
      have suffix: "drop (length m) (c # cs) = drop (length m - 1) cs"
        using n(1) by (cases "length m") simp_all
      have before: "\<forall>k t. k < length m \<longrightarrow> \<not> qualifying prev (c # cs) k t"
        using stopword_match_covers [OF Some True] by blast
      have "first_qualifying (Some (last m)) (drop (length m - 1) cs)
          (first_candidate (findall_brand (Some (last m)) (drop (length m - 1) cs)))"
        using "2.IH"(2) [OF Some] .
      then have "first_qualifying (Some ((c # cs) ! (length m - 1))) (drop (length m) (c # cs))
          (first_candidate (findall_brand (Some (last m)) (drop (length m - 1) cs)))"
        by (simp only: last suffix)
      from first_qualifying_shift [OF n before this]
      have "first_qualifying prev (c # cs)
          (first_candidate (findall_brand (Some (last m)) (drop (length m - 1) cs)))" .
      moreover have "findall_brand prev (c # cs)
          = m # findall_brand (Some (last m)) (drop (length m - 1) cs)"
        using Some by (simp only: findall_brand.simps option.case)
      ultimately show ?thesis using True by (simp only: first_candidate.simps if_True)
    qed
  qed
qed

lemma extract_brand_first_qualifying:
  "first_qualifying None text' (extract_brand text')"
  unfolding extract_brand_def by (rule findall_brand_first_qualifying)

text \<open>
  C5 (as amended). For every text, \<open>extract_brand\<close> returns the leftmost token, and the
  longest one at its position, that is a capital letter followed by one or more letters,
  digits, ampersands, apostrophes or hyphens, stands between word boundaries of the
  original-case text, and whose lower-cased form is no stopword; it returns none exactly when
  every such token is a stopword. For "Show TechCo sales last 2 weeks" it returns "TechCo".
\<close>

theorem extract_brand_leftmost_token:
  "(case extract_brand text' of
      Some b \<Rightarrow>
        (\<exists>k. token_at None text' k b \<and> lower b \<notin> set stopwords
           \<and> (\<forall>k' t'. token_at None text' k' t' \<and> lower t' \<notin> set stopwords
                 \<longrightarrow> k \<le> k' \<and> (k' = k \<longrightarrow> length t' \<le> length b)))
    | None \<Rightarrow> (\<forall>k t. token_at None text' k t \<longrightarrow> lower t \<in> set stopwords))
   \<and> extract_brand ''Show TechCo sales last 2 weeks'' = Some ''TechCo''"
proof -
  have "first_qualifying None text' (extract_brand text')"
    by (rule extract_brand_first_qualifying)
  then have "case extract_brand text' of
      Some b \<Rightarrow>
        (\<exists>k. token_at None text' k b \<and> lower b \<notin> set stopwords
           \<and> (\<forall>k' t'. token_at None text' k' t' \<and> lower t' \<notin> set stopwords
                 \<longrightarrow> k \<le> k' \<and> (k' = k \<longrightarrow> length t' \<le> length b)))
    | None \<Rightarrow> (\<forall>k t. token_at None text' k t \<longrightarrow> lower t \<in> set stopwords)"
    unfolding first_qualifying_def qualifying_def
    by (cases "extract_brand text'") auto
  then show ?thesis using extract_brand_example by blast
qed

theorem extract_brand_leftmost_token_witness:
  "extract_brand ''Show TechCo sales last 2 weeks'' = Some ''TechCo''
   \<and> (\<exists>k. token_at None ''Show TechCo sales last 2 weeks'' k ''TechCo''
          \<and> lower ''TechCo'' \<notin> set stopwords)"
proof -
  have "case extract_brand ''Show TechCo sales last 2 weeks'' of
      Some b \<Rightarrow>
        (\<exists>k. token_at None ''Show TechCo sales last 2 weeks'' k b \<and> lower b \<notin> set stopwords
           \<and> (\<forall>k' t'. token_at None ''Show TechCo sales last 2 weeks'' k' t'
                   \<and> lower t' \<notin> set stopwords
                 \<longrightarrow> k \<le> k' \<and> (k' = k \<longrightarrow> length t' \<le> length b)))
    | None \<Rightarrow> (\<forall>k t. token_at None ''Show TechCo sales last 2 weeks'' k t
                 \<longrightarrow> lower t \<in> set stopwords)"
    using extract_brand_leftmost_token [of "''Show TechCo sales last 2 weeks''"] by (rule conjunct1)
  then have "\<exists>k. token_at None ''Show TechCo sales last 2 weeks'' k ''TechCo''
          \<and> lower ''TechCo'' \<notin> set stopwords"
    unfolding extract_brand_example by (simp only: option.case) blast
  then show ?thesis using extract_brand_example by blast
qed

lemma extract_brand_show_x: "extract_brand ''Show X sales'' = None"
  by code_simp

text \<open>
  C5 as stated fails for a capitalized word of one letter: in "Show X sales" the word "X"
  stands between word boundaries, matches the pattern as the claim words it and is no
  stopword, and \<open>extract_brand\<close> returns none, because the expression asks for at least one
  character after the capital letter.
\<close>

theorem one_letter_brand_counterexample:
  "capitalized_word ''X''
   \<and> lower ''X'' \<notin> set stopwords
   \<and> take 1 (drop 5 ''Show X sales'') = ''X''
   \<and> boundary (char_at ''Show X sales'' 4) (char_at ''Show X sales'' 5)
   \<and> boundary (char_at ''Show X sales'' 5) (char_at ''Show X sales'' 6)
   \<and> extract_brand ''Show X sales'' = None"
proof -
  have "capitalized_word ''X''"
    by (simp add: capitalized_word_def is_AZ_def in_range_def)
  moreover have "lower ''X'' \<notin> set stopwords"
    by (simp add: lower_def stopwords_def)
  moreover have "boundary (char_at ''Show X sales'' 4) (char_at ''Show X sales'' 5)"
    "boundary (char_at ''Show X sales'' 5) (char_at ''Show X sales'' 6)"
    by code_simp+
  ultimately show ?thesis using extract_brand_show_x by simp
qed

end
